theory Spec2Isabelle
  imports Complex_Main
begin

section \<open>JavaScript values held by the move input\<close>

text \<open>
  Square indices and piece names are read from the DOM with \<^verbatim>\<open>getAttribute\<close>
  (\<^verbatim>\<open>data-index\<close>, \<^verbatim>\<open>data-piece\<close>), so they are strings, \<^verbatim>\<open>null\<close> when the
  attribute is absent, and \<^verbatim>\<open>undefined\<close> for a field or variable never assigned.
  \<^verbatim>\<open>===\<close> on these values is equality of \<open>jsval\<close>.
\<close>

datatype jsval = Undefined | Null | Str string

text \<open>Truthiness as used by \<^verbatim>\<open>if (v)\<close> and \<^verbatim>\<open>&&\<close>: only a non-empty string is truthy.\<close>

fun truthy :: "jsval \<Rightarrow> bool" where
  "truthy (Str s) = (s \<noteq> [])"
| "truthy Undefined = False"
| "truthy Null = False"

text \<open>String coercion, as done by a template literal and by a property access \<^verbatim>\<open>a[v]\<close>.\<close>

fun to_string :: "jsval \<Rightarrow> string" where
  "to_string Undefined = ''undefined''"
| "to_string Null = ''null''"
| "to_string (Str s) = s"

datatype STATE =
  waitForInputStart | pieceClickedThreshold | clickTo | secondClickThreshold
  | dragTo | clickDragTo | moveDone | reset

datatype MOVE_CANCELED_REASON = secondClick | movedOutOfBoard

text \<open>Modelled from the spec: the constants of \<^verbatim>\<open>Chessboard.js\<close>, which is not among
  the sources. The move-input mode is one of dragPiece, click, viewOnly; the marker type
  distinguishes the move highlight from the other marker kinds.\<close>

datatype MOVE_INPUT_MODE = dragPiece | click | viewOnly

datatype MARKER_TYPE = move | annotation

datatype event_type = mousedown | touchstart | mousemove | touchmove | mouseup | touchend

datatype error = Error string | TypeError

type_synonym point = "int \<times> int"

text \<open>The object literal passed as \<^verbatim>\<open>params\<close>; a property the literal leaves out is
  \<^verbatim>\<open>undefined\<close>.\<close>

record params =
  p_index :: jsval
  p_piece :: jsval
  p_point :: "point option"
  p_type :: "event_type option"

text \<open>The callback handed to \<^verbatim>\<open>animatePieces\<close>: the move input passes
  \<^verbatim>\<open>() => this.setMoveInputState(STATE.reset)\<close>; other callers pass their own or none.\<close>

datatype callback = NoCallback | ResetCallback | ExternalCallback nat

type_synonym squares = "string \<Rightarrow> jsval"

record animation =
  fromSquares :: squares
  toSquares :: squares
  a_callback :: callback

record draggable =
  dp_name :: jsval
  dp_position :: "point option"

text \<open>
  One record for the three objects that share the state: the move input (first block),
  the board state (second block), the view (third block). \<open>windowListeners\<close> is the
  list of listener types registered on \<^verbatim>\<open>window\<close> by the move input, \<open>canceled\<close> the
  calls of \<^verbatim>\<open>moveCanceledCallback\<close> so far, \<open>startedAnimations\<close> the animations
  constructed so far with their durations, \<open>externalCalls\<close> the foreign callbacks invoked.
  \<open>squares\<close> is the placement array read through its property keys
  (\<^verbatim>\<open>squares[index]\<close> with a string index); \<open>piecesGroup\<close> maps the
  \<^verbatim>\<open>data-index\<close> of a drawn piece element to its \<^verbatim>\<open>data-piece\<close> and visibility.
\<close>

record sys =
  moveInputState :: STATE
  startIndex :: jsval
  endIndex :: jsval
  movedPiece :: jsval
  startPoint :: "point option"
  draggablePiece :: "draggable option"
  pointerMoveListener :: "event_type option"
  pointerUpListener :: "event_type option"
  windowListeners :: "event_type list"
  canceled :: "(MOVE_CANCELED_REASON \<times> jsval) list"

  squares :: squares
  markers :: "(jsval \<times> MARKER_TYPE) list"
  inputWhiteEnabled :: bool
  inputBlackEnabled :: bool

  piecesGroup :: "string \<rightharpoonup> (string \<times> bool)"
  animationQueue :: "animation list"
  animationRunning :: bool
  currentAnimation :: "(animation \<times> rat) option"
  drawPiecesDebounce :: bool
  drawMarkersDebounce :: bool
  startedAnimations :: "(animation \<times> rat) list"
  externalCalls :: "nat list"

text \<open>What the constructor receives: the two veto callbacks and the props that are read.
  JavaScript numbers are IEEE-754 doubles, each of them a rational number. Their division
  \<^verbatim>\<open>a / b\<close> gives the double nearest to the quotient, which is not computed here:
  \<open>number_div\<close> stands for it, and every property holds whatever it returns.\<close>

record env =
  moveStartCallback :: "jsval \<Rightarrow> bool"
  moveDoneCallback :: "jsval \<Rightarrow> jsval \<Rightarrow> bool"
  moveInputMode :: MOVE_INPUT_MODE
  animationDuration :: rat
  number_div :: "rat \<Rightarrow> rat \<Rightarrow> rat"

text \<open>A call either returns the new state or throws, leaving the state as it was at the
  throw.\<close>

type_synonym result = "(error \<times> sys) + sys"

definition bind_result :: "result \<Rightarrow> (sys \<Rightarrow> result) \<Rightarrow> result" where
  "bind_result r f = (case r of Inl e \<Rightarrow> Inl e | Inr s \<Rightarrow> f s)"

section \<open>Board state\<close>

text \<open>Modelled from the spec: \<^verbatim>\<open>ChessboardState.js\<close> is not among the sources. The
  spec gives \<^verbatim>\<open>setPiece(index, pieceOrEmpty)\<close>, \<^verbatim>\<open>addMarker(index, type)\<close> and
  \<^verbatim>\<open>removeMarkers(filterIndexOrNull, type)\<close>; the move input only calls the last with a
  null index, which removes every marker of the type.\<close>

definition setPiece :: "jsval \<Rightarrow> jsval \<Rightarrow> sys \<Rightarrow> sys" where
  "setPiece index piece s = s\<lparr>squares := (squares s)(to_string index := piece)\<rparr>"

definition addMarker :: "jsval \<Rightarrow> MARKER_TYPE \<Rightarrow> sys \<Rightarrow> sys" where
  "addMarker index ty s = s\<lparr>markers := markers s @ [(index, ty)]\<rparr>"

definition removeMarkers :: "MARKER_TYPE \<Rightarrow> sys \<Rightarrow> sys" where
  "removeMarkers ty s = s\<lparr>markers := filter (\<lambda>m. snd m \<noteq> ty) (markers s)\<rparr>"

section \<open>View: pieces\<close>

definition digit_char :: "nat \<Rightarrow> char" where
  "digit_char n = ''0123456789'' ! n"

text \<open>\<^verbatim>\<open>"" + i\<close> for the loop counter \<open>i < 64\<close>.\<close>

definition index_string :: "nat \<Rightarrow> string" where
  "index_string i = (if i < 10 then [digit_char i] else [digit_char (i div 10), digit_char (i mod 10)])"

text \<open>\<^verbatim>\<open>drawPiece\<close> appends a group with \<^verbatim>\<open>data-piece\<close>, \<^verbatim>\<open>data-index\<close> and no
  visibility attribute (visible).\<close>

definition drawPiece :: "nat \<Rightarrow> string \<Rightarrow> (string \<rightharpoonup> (string \<times> bool)) \<Rightarrow> (string \<rightharpoonup> (string \<times> bool))" where
  "drawPiece i pieceName pg = pg(index_string i \<mapsto> (pieceName, True))"

fun drawPieces_loop :: "squares \<Rightarrow> nat list \<Rightarrow> (string \<rightharpoonup> (string \<times> bool)) \<Rightarrow> (string \<rightharpoonup> (string \<times> bool))" where
  "drawPieces_loop sq [] pg = pg"
| "drawPieces_loop sq (i # is) pg =
     drawPieces_loop sq is
       (case sq (index_string i) of
          Str n \<Rightarrow> (if n \<noteq> [] then drawPiece i n pg else pg)
        | _ \<Rightarrow> pg)"

definition drawPieces :: "squares \<Rightarrow> sys \<Rightarrow> sys" where
  "drawPieces sq s = s\<lparr>piecesGroup := drawPieces_loop sq [0..<64] Map.empty\<rparr>"

text \<open>The timer of \<^verbatim>\<open>drawPiecesDebounced\<close>, called without arguments by the move input:
  when it fires it draws the state's squares array, which \<open>setPiece\<close> updates in place.\<close>

definition drawPiecesDebounced :: "sys \<Rightarrow> sys" where
  "drawPiecesDebounced s = s\<lparr>drawPiecesDebounce := True\<rparr>"

definition drawPiecesTimeout :: "sys \<Rightarrow> sys" where
  "drawPiecesTimeout s =
     (if drawPiecesDebounce s then drawPieces (squares s) (s\<lparr>drawPiecesDebounce := False\<rparr>) else s)"

definition drawMarkersDebounced :: "sys \<Rightarrow> sys" where
  "drawMarkersDebounced s = s\<lparr>drawMarkersDebounce := True\<rparr>"

definition getPiece :: "sys \<Rightarrow> jsval \<Rightarrow> (string \<times> bool) option" where
  "getPiece s index = piecesGroup s (to_string index)"

text \<open>\<^verbatim>\<open>piece.setAttribute\<close> on the \<^verbatim>\<open>null\<close> that \<^verbatim>\<open>getPiece\<close> returns for a square
  without a piece element is a TypeError.\<close>

definition setPieceVisibility :: "jsval \<Rightarrow> bool \<Rightarrow> sys \<Rightarrow> result" where
  "setPieceVisibility index visible s =
     (case getPiece s index of
        None \<Rightarrow> Inl (TypeError, s)
      | Some (n, _) \<Rightarrow> Inr (s\<lparr>piecesGroup := (piecesGroup s)(to_string index \<mapsto> (n, visible))\<rparr>))"

section \<open>View: animation queue\<close>

text \<open>Modelled from the spec: \<^verbatim>\<open>ChessboardPiecesAnimation.js\<close> is not among the sources.
  By the spec at most one animation plays at a time and enqueuing while one is active does
  not preempt it; \<^verbatim>\<open>animationRunning\<close> is never written in the view's own code, so the
  animation raises the flag when it is constructed and lowers it when it has played, just
  before it invokes its completion callback.\<close>

definition new_ChessboardPiecesAnimation :: "animation \<Rightarrow> rat \<Rightarrow> sys \<Rightarrow> sys" where
  "new_ChessboardPiecesAnimation a duration s =
     s\<lparr>animationRunning := True, startedAnimations := startedAnimations s @ [(a, duration)]\<rparr>"

definition nextPieceAnimationInQueue :: "env \<Rightarrow> sys \<Rightarrow> sys" where
  "nextPieceAnimationInQueue env s =
     (case animationQueue s of
        [] \<Rightarrow> s
      | nextAnimation # rest \<Rightarrow>
          (let s1 = s\<lparr>animationQueue := rest\<rparr>;
               duration = number_div env (animationDuration env) (of_nat (length (animationQueue s1)) + 1)
           in (new_ChessboardPiecesAnimation nextAnimation duration s1)
                \<lparr>currentAnimation := Some (nextAnimation, duration)\<rparr>))"

definition animatePieces :: "env \<Rightarrow> squares \<Rightarrow> squares \<Rightarrow> callback \<Rightarrow> sys \<Rightarrow> sys" where
  "animatePieces env fromSq toSq cb s =
     (let s1 = s\<lparr>animationQueue := animationQueue s @
                 [\<lparr>fromSquares = fromSq, toSquares = toSq, a_callback = cb\<rparr>]\<rparr>
      in if \<not> animationRunning s1 then nextPieceAnimationInQueue env s1 else s1)"

section \<open>Move input\<close>

definition updateStartEndMarkers :: "sys \<Rightarrow> sys" where
  "updateStartEndMarkers s =
     (let s1 = removeMarkers move s;
          s2 = (if truthy (startIndex s1) then addMarker (startIndex s1) move s1 else s1);
          s3 = (if truthy (endIndex s2) then addMarker (endIndex s2) move s2 else s2)
      in drawMarkersDebounced s3)"

definition createDraggablePiece :: "jsval \<Rightarrow> sys \<Rightarrow> result" where
  "createDraggablePiece pieceName s =
     (if draggablePiece s \<noteq> None then Inl (Error ''draggablePiece exists'', s)
      else Inr (s\<lparr>draggablePiece := Some \<lparr>dp_name = pieceName, dp_position = None\<rparr>\<rparr>))"

definition moveDraggablePiece :: "point option \<Rightarrow> sys \<Rightarrow> result" where
  "moveDraggablePiece xy s =
     (case draggablePiece s of
        None \<Rightarrow> Inl (TypeError, s)
      | Some d \<Rightarrow> Inr (s\<lparr>draggablePiece := Some (d\<lparr>dp_position := xy\<rparr>)\<rparr>))"

definition removeDraggablePiece :: "sys \<Rightarrow> sys" where
  "removeDraggablePiece s = (if draggablePiece s \<noteq> None then s\<lparr>draggablePiece := None\<rparr> else s)"

definition removePointerMoveListener :: "sys \<Rightarrow> sys" where
  "removePointerMoveListener s =
     (case pointerMoveListener s of
        None \<Rightarrow> s
      | Some ty \<Rightarrow> s\<lparr>windowListeners := remove1 ty (windowListeners s), pointerMoveListener := None\<rparr>)"

definition removePointerUpListener :: "sys \<Rightarrow> sys" where
  "removePointerUpListener s =
     (case pointerUpListener s of
        None \<Rightarrow> s
      | Some ty \<Rightarrow> s\<lparr>windowListeners := remove1 ty (windowListeners s), pointerUpListener := None\<rparr>)"

definition addPointerListeners :: "event_type \<Rightarrow> event_type \<Rightarrow> sys \<Rightarrow> sys" where
  "addPointerListeners moveTy upTy s =
     s\<lparr>pointerMoveListener := Some moveTy, pointerUpListener := Some upTy,
       windowListeners := windowListeners s @ [moveTy, upTy]\<rparr>"

definition state_rank :: "STATE \<Rightarrow> nat" where
  "state_rank st = (case st of moveDone \<Rightarrow> 2 | reset \<Rightarrow> 1 | _ \<Rightarrow> 0)"

function setMoveInputState :: "env \<Rightarrow> STATE \<Rightarrow> params option \<Rightarrow> sys \<Rightarrow> result" where
  "setMoveInputState env waitForInputStart params s0 =
     Inr (s0\<lparr>moveInputState := waitForInputStart\<rparr>)"
| "setMoveInputState env pieceClickedThreshold params s0 =
     (let prevState = moveInputState s0; s = s0\<lparr>moveInputState := pieceClickedThreshold\<rparr> in
      if waitForInputStart \<noteq> prevState then Inl (Error ''moveInputState'', s)
      else case params of
        None \<Rightarrow> Inl (TypeError, s)
      | Some p \<Rightarrow>
         (let s1 = updateStartEndMarkers
                     (s\<lparr>startIndex := p_index p, endIndex := Null, movedPiece := p_piece p\<rparr>);
              s2 = s1\<lparr>startPoint := p_point p\<rparr>
          in if pointerMoveListener s2 = None \<and> pointerUpListener s2 = None then
               (if p_type p = Some mousedown then Inr (addPointerListeners mousemove mouseup s2)
                else if p_type p = Some touchstart then Inr (addPointerListeners touchmove touchend s2)
                else Inl (Error ''event type'', s2))
             else Inl (Error ''_pointerMoveListener or _pointerUpListener'', s2)))"
| "setMoveInputState env clickTo params s0 =
     (let prevState = moveInputState s0; s = s0\<lparr>moveInputState := clickTo\<rparr>;
          s1 = removeDraggablePiece s
      in if prevState = dragTo then
           (case params of
              None \<Rightarrow> Inl (TypeError, s1)
            | Some p \<Rightarrow> setPieceVisibility (p_index p) True s1)
         else Inr s1)"
| "setMoveInputState env secondClickThreshold params s0 =
     (let prevState = moveInputState s0; s = s0\<lparr>moveInputState := secondClickThreshold\<rparr> in
      if clickTo \<noteq> prevState then Inl (Error ''moveInputState'', s)
      else case params of
        None \<Rightarrow> Inl (TypeError, s)
      | Some p \<Rightarrow> Inr (s\<lparr>startPoint := p_point p\<rparr>))"
| "setMoveInputState env dragTo params s0 =
     (let prevState = moveInputState s0; s = s0\<lparr>moveInputState := dragTo\<rparr> in
      if pieceClickedThreshold \<noteq> prevState then Inl (Error ''moveInputState'', s)
      else if moveInputMode env = dragPiece then
        (case params of
           None \<Rightarrow> Inl (TypeError, s)
         | Some p \<Rightarrow> bind_result (setPieceVisibility (p_index p) False s)
                       (createDraggablePiece (p_piece p)))
      else Inr s)"
| "setMoveInputState env clickDragTo params s0 =
     (let prevState = moveInputState s0; s = s0\<lparr>moveInputState := clickDragTo\<rparr> in
      if secondClickThreshold \<noteq> prevState then Inl (Error ''moveInputState'', s)
      else if moveInputMode env = dragPiece then
        (case params of
           None \<Rightarrow> Inl (TypeError, s)
         | Some p \<Rightarrow> bind_result (setPieceVisibility (p_index p) False s)
                       (createDraggablePiece (p_piece p)))
      else Inr s)"
| "setMoveInputState env moveDone params s0 =
     (let prevState = moveInputState s0; s = s0\<lparr>moveInputState := moveDone\<rparr> in
      if prevState \<notin> set [dragTo, clickTo, clickDragTo] then Inl (Error ''moveInputState'', s)
      else case params of
        None \<Rightarrow> Inl (TypeError, s)
      | Some p \<Rightarrow>
         (let s1 = s\<lparr>endIndex := p_index p\<rparr> in
          if truthy (endIndex s1) \<and> moveDoneCallback env (startIndex s1) (endIndex s1) then
            (let prevSquares = squares s1;
                 s2 = setPiece (startIndex s1) Null s1;
                 s3 = setPiece (endIndex s2) (movedPiece s2) s2
             in if prevState = clickTo then
                  Inr (animatePieces env prevSquares (squares s3) ResetCallback s3)
                else setMoveInputState env reset None (drawPieces (squares s3) s3))
          else setMoveInputState env reset None (drawPiecesDebounced s1)))"
| "setMoveInputState env reset params s0 =
     (let s = s0\<lparr>moveInputState := reset\<rparr>;
          s1 = (if truthy (startIndex s) \<and> \<not> truthy (endIndex s) \<and> truthy (movedPiece s)
                then setPiece (startIndex s) (movedPiece s) s else s);
          s2 = updateStartEndMarkers (s1\<lparr>startIndex := Null, endIndex := Null, movedPiece := Null\<rparr>);
          s3 = removeDraggablePiece s2;
          s4 = removePointerMoveListener s3;
          s5 = removePointerUpListener s4
      in setMoveInputState env waitForInputStart None s5)"
  by pat_completeness auto
termination
  by (relation "measure (\<lambda>(env, st, p, s). state_rank st)") (auto simp: state_rank_def)

section \<open>Pointer events\<close>

text \<open>What \<^verbatim>\<open>onPointerDown\<close> reads of the event: its type, the button, the
  \<^verbatim>\<open>data-index\<close> attribute of its target (\<^verbatim>\<open>getAttribute\<close> gives a string or
  \<^verbatim>\<open>null\<close>) and the client coordinates (of the first touch for a touch event).
  \<^verbatim>\<open>preventDefault\<close> acts on the browser's scrolling only and is left out.\<close>

record down_event =
  d_type :: event_type
  d_button :: nat
  d_index :: jsval
  d_point :: point

text \<open>The element under the pointer for a move or up event: none
  (\<^verbatim>\<open>elementFromPoint\<close> gave \<^verbatim>\<open>null\<close>), a node without \<^verbatim>\<open>getAttribute\<close> (the
  document), or an element, of which the handlers read whether its parent is the view's
  board group and its \<^verbatim>\<open>data-index\<close> attribute.\<close>

datatype target = NoTarget | NonElement | Element bool jsval

record pointer_event =
  e_type :: event_type
  e_page :: point
  e_target :: target

definition moveCanceledCallback :: "MOVE_CANCELED_REASON \<Rightarrow> jsval \<Rightarrow> sys \<Rightarrow> sys" where
  "moveCanceledCallback reason index s = s\<lparr>canceled := canceled s @ [(reason, index)]\<rparr>"

definition DRAG_THRESHOLD :: int where
  "DRAG_THRESHOLD = 2"

definition onPointerDown :: "env \<Rightarrow> down_event \<Rightarrow> sys \<Rightarrow> result" where
  "onPointerDown env e s =
     (if d_type e = mousedown \<and> d_button e = 0 \<or> d_type e = touchstart then
        (let index = d_index e;
             pieceElement = getPiece s index;
             pieceName = (case pieceElement of None \<Rightarrow> Undefined | Some (n, _) \<Rightarrow> Str n);
             color = (case pieceElement of
                        None \<Rightarrow> Undefined
                      | Some (n, _) \<Rightarrow> if truthy pieceName then Str (take 1 n) else Null)
         in if index \<noteq> Undefined then
              (if moveInputState s \<noteq> waitForInputStart \<or>
                  inputWhiteEnabled s \<and> color = Str ''w'' \<or>
                  inputBlackEnabled s \<and> color = Str ''b'' then
                 (let pt = Some (d_point e) in
                  if moveInputState s = waitForInputStart \<and> truthy pieceName \<and>
                     moveStartCallback env index then
                    setMoveInputState env pieceClickedThreshold
                      (Some \<lparr>p_index = index, p_piece = pieceName, p_point = pt,
                             p_type = Some (d_type e)\<rparr>) s
                  else if moveInputState s = clickTo then
                    (if index = startIndex s then
                       setMoveInputState env secondClickThreshold
                         (Some \<lparr>p_index = index, p_piece = pieceName, p_point = pt,
                                p_type = Some (d_type e)\<rparr>) s
                     else
                       setMoveInputState env moveDone
                         (Some \<lparr>p_index = index, p_piece = Undefined, p_point = None,
                                p_type = None\<rparr>) s)
                  else Inr s)
               else Inr s)
            else Inr s)
      else Inr s)"

text \<open>\<^verbatim>\<open>x\<close>, \<^verbatim>\<open>y\<close> and \<^verbatim>\<open>target\<close> stay undefined for an event that is neither a mouse
  move nor a touch move; a comparison with an undefined coordinate is false.\<close>

definition beyond_threshold :: "point \<Rightarrow> point option \<Rightarrow> bool" where
  "beyond_threshold sp xy =
     (case xy of
        None \<Rightarrow> False
      | Some (x, y) \<Rightarrow> \<bar>fst sp - x\<bar> > DRAG_THRESHOLD \<or> \<bar>snd sp - y\<bar> > DRAG_THRESHOLD)"

definition onPointerMove :: "env \<Rightarrow> pointer_event \<Rightarrow> sys \<Rightarrow> result" where
  "onPointerMove env e s =
     (let known = (e_type e = mousemove \<or> e_type e = touchmove);
          xy = (if known then Some (e_page e) else None);
          tgt = (if known then e_target e else NoTarget)
      in if moveInputState s = pieceClickedThreshold \<or> moveInputState s = secondClickThreshold then
           (case startPoint s of
              None \<Rightarrow> Inl (TypeError, s)
            | Some sp \<Rightarrow>
                if beyond_threshold sp xy then
                  bind_result
                    (if moveInputState s = secondClickThreshold then
                       setMoveInputState env clickDragTo
                         (Some \<lparr>p_index = startIndex s, p_piece = movedPiece s, p_point = None,
                                p_type = None\<rparr>) s
                     else
                       setMoveInputState env dragTo
                         (Some \<lparr>p_index = startIndex s, p_piece = movedPiece s, p_point = None,
                                p_type = None\<rparr>) s)
                    (\<lambda>s'. if moveInputMode env = dragPiece then moveDraggablePiece xy s' else Inr s')
                else Inr s)
         else if moveInputState s = dragTo \<or> moveInputState s = clickDragTo \<or>
                 moveInputState s = clickTo then
           (let s1 =
                  (case tgt of
                     Element True index \<Rightarrow>
                       if index \<noteq> startIndex s \<and> index \<noteq> endIndex s then
                         updateStartEndMarkers (s\<lparr>endIndex := index\<rparr>)
                       else if index = startIndex s \<and> endIndex s \<noteq> Null then
                         updateStartEndMarkers (s\<lparr>endIndex := Null\<rparr>)
                       else s
                   | _ \<Rightarrow>
                       if endIndex s \<noteq> Null then updateStartEndMarkers (s\<lparr>endIndex := Null\<rparr>)
                       else s)
            in if moveInputMode env = dragPiece \<and>
                  (moveInputState s1 = dragTo \<or> moveInputState s1 = clickDragTo) then
                 moveDraggablePiece xy s1
               else Inr s1)
         else Inr s)"

definition onPointerUp :: "env \<Rightarrow> pointer_event \<Rightarrow> sys \<Rightarrow> result" where
  "onPointerUp env e s =
     (let tgt = (if e_type e = mouseup \<or> e_type e = touchend then e_target e else NoTarget) in
      case tgt of
        Element inBoard index \<Rightarrow>
          if truthy index then
            (if moveInputState s = dragTo \<or> moveInputState s = clickDragTo then
               (if startIndex s = index then
                  (if moveInputState s = clickDragTo then
                     bind_result
                       (setPieceVisibility (startIndex s) True
                          (setPiece (startIndex s) (movedPiece s) s))
                       (setMoveInputState env reset None)
                   else
                     setMoveInputState env clickTo
                       (Some \<lparr>p_index = index, p_piece = Undefined, p_point = None,
                              p_type = None\<rparr>) s)
                else
                  setMoveInputState env moveDone
                    (Some \<lparr>p_index = index, p_piece = Undefined, p_point = None,
                           p_type = None\<rparr>) s)
             else if moveInputState s = pieceClickedThreshold then
               setMoveInputState env clickTo
                 (Some \<lparr>p_index = index, p_piece = Undefined, p_point = None, p_type = None\<rparr>) s
             else if moveInputState s = secondClickThreshold then
               bind_result (setMoveInputState env reset None s)
                 (\<lambda>s'. Inr (moveCanceledCallback secondClick index s'))
             else Inr s)
          else
            bind_result (setMoveInputState env reset None (drawPiecesDebounced s))
              (\<lambda>s'. Inr (moveCanceledCallback movedOutOfBoard Undefined s'))
      | _ \<Rightarrow> setMoveInputState env reset None (drawPiecesDebounced s))"

section \<open>Completion of an animation\<close>

definition run_callback :: "env \<Rightarrow> callback \<Rightarrow> sys \<Rightarrow> result" where
  "run_callback env cb s =
     (case cb of
        NoCallback \<Rightarrow> Inr s
      | ResetCallback \<Rightarrow> setMoveInputState env reset None s
      | ExternalCallback n \<Rightarrow> Inr (s\<lparr>externalCalls := externalCalls s @ [n]\<rparr>))"

text \<open>The closure that \<^verbatim>\<open>nextPieceAnimationInQueue\<close> hands to the animation.\<close>

definition animation_completed :: "env \<Rightarrow> animation \<Rightarrow> sys \<Rightarrow> result" where
  "animation_completed env nextAnimation s =
     (let s1 = (if draggablePiece s = None then drawPieces (toSquares nextAnimation) s else s);
          s2 = nextPieceAnimationInQueue env s1
      in run_callback env (a_callback nextAnimation) s2)"

text \<open>Modelled from the spec: the end of the running animation
  (\<^verbatim>\<open>ChessboardPiecesAnimation.js\<close> is not among the sources). The animation that was
  constructed last is the one playing; when it has played it lowers
  \<^verbatim>\<open>animationRunning\<close> and invokes the closure it was given.\<close>

definition animationFinished :: "env \<Rightarrow> sys \<Rightarrow> result" where
  "animationFinished env s =
     (case currentAnimation s of
        None \<Rightarrow> Inr s
      | Some (a, duration) \<Rightarrow>
          if animationRunning s then animation_completed env a (s\<lparr>animationRunning := False\<rparr>)
          else Inr s)"

section \<open>The widget as a transition system\<close>

text \<open>The events the event loop delivers. A pointer move or up reaches its handler only
  through the listener of that type registered on \<^verbatim>\<open>window\<close>; the pointer-down listener
  sits on the board element unless the input mode is viewOnly. \<open>Animate\<close> is a call of
  \<^verbatim>\<open>animatePieces\<close> from outside the move input.\<close>

datatype event =
  PointerDown down_event
  | PointerMove pointer_event
  | PointerUp pointer_event
  | AnimationFinished
  | DrawPiecesTimeout
  | Animate squares squares callback

definition dispatch :: "env \<Rightarrow> event \<Rightarrow> sys \<Rightarrow> result" where
  "dispatch env ev s =
     (case ev of
        PointerDown e \<Rightarrow> if moveInputMode env \<noteq> viewOnly then onPointerDown env e s else Inr s
      | PointerMove e \<Rightarrow>
          if pointerMoveListener s = Some (e_type e) then onPointerMove env e s else Inr s
      | PointerUp e \<Rightarrow>
          if pointerUpListener s = Some (e_type e) then onPointerUp env e s else Inr s
      | AnimationFinished \<Rightarrow> animationFinished env s
      | DrawPiecesTimeout \<Rightarrow> Inr (drawPiecesTimeout s)
      | Animate fromSq toSq cb \<Rightarrow> Inr (animatePieces env fromSq toSq cb s))"

text \<open>An exception ends the handler and leaves the objects as they were at the throw.\<close>

definition after :: "result \<Rightarrow> sys" where
  "after r = (case r of Inl (err, s) \<Rightarrow> s | Inr s \<Rightarrow> s)"

fun run :: "env \<Rightarrow> event list \<Rightarrow> sys \<Rightarrow> sys" where
  "run env [] s = s"
| "run env (ev # evs) s = run env evs (after (dispatch env ev s))"

text \<open>The widget after construction, with the pieces of the placement drawn: the move
  input's fields are still unassigned, its state is the one the constructor sets.\<close>

definition initial :: "squares \<Rightarrow> bool \<Rightarrow> bool \<Rightarrow> sys" where
  "initial sq white black =
     drawPieces sq
       \<lparr>moveInputState = waitForInputStart, startIndex = Undefined, endIndex = Undefined,
        movedPiece = Undefined, startPoint = None, draggablePiece = None,
        pointerMoveListener = None, pointerUpListener = None, windowListeners = [],
        canceled = [], squares = sq, markers = [], inputWhiteEnabled = white,
        inputBlackEnabled = black, piecesGroup = Map.empty, animationQueue = [],
        animationRunning = False, currentAnimation = None, drawPiecesDebounce = False,
        drawMarkersDebounce = False, startedAnimations = [], externalCalls = []\<rparr>"

text \<open>The move input at rest, as \<^verbatim>\<open>STATE.reset\<close> leaves it.\<close>

definition at_rest :: "sys \<Rightarrow> bool" where
  "at_rest s \<longleftrightarrow>
     moveInputState s = waitForInputStart \<and> startIndex s = Null \<and> endIndex s = Null \<and>
     movedPiece s = Null \<and> filter (\<lambda>m. snd m = move) (markers s) = [] \<and>
     draggablePiece s = None \<and> pointerMoveListener s = None \<and> pointerUpListener s = None"

section \<open>Guards of the transitions\<close>

text \<open>The predecessors that the spec's transition table allows for the five guarded
  states.\<close>

fun table_predecessors :: "STATE \<Rightarrow> STATE list" where
  "table_predecessors pieceClickedThreshold = [waitForInputStart]"
| "table_predecessors secondClickThreshold = [clickTo]"
| "table_predecessors dragTo = [pieceClickedThreshold]"
| "table_predecessors clickDragTo = [secondClickThreshold]"
| "table_predecessors moveDone = [clickTo, dragTo, clickDragTo]"
| "table_predecessors waitForInputStart = []"
| "table_predecessors clickTo = []"
| "table_predecessors reset = []"

definition guarded :: "STATE list" where
  "guarded = [pieceClickedThreshold, secondClickThreshold, dragTo, clickDragTo, moveDone]"

section \<open>A concrete widget for the examples\<close>

text \<open>A white pawn on square 12 and a black pawn on square 52; both callbacks accept;
  dragPiece mode; base duration 300, whose quotients by 1, 2 and 3 are doubles, so that
  the exact quotient is the division of the example.\<close>

definition example_squares :: squares where
  "example_squares = (\<lambda>k. Null)(''12'' := Str ''wp'', ''52'' := Str ''bp'')"

definition example_env :: env where
  "example_env = \<lparr>moveStartCallback = (\<lambda>i. True), moveDoneCallback = (\<lambda>i j. True),
     moveInputMode = dragPiece, animationDuration = 300, number_div = (\<lambda>a b. a / b)\<rparr>"

section \<open>Notions used in the properties\<close>

text \<open>Whether input is enabled for the colour of a piece name (its first character).\<close>

definition input_enabled :: "sys \<Rightarrow> string \<Rightarrow> bool" where
  "input_enabled s pieceName \<longleftrightarrow>
     inputWhiteEnabled s \<and> take 1 pieceName = ''w'' \<or>
     inputBlackEnabled s \<and> take 1 pieceName = ''b''"

text \<open>Concrete events on a square, for the examples.\<close>

definition mouse_down :: "string \<Rightarrow> event" where
  "mouse_down i = PointerDown \<lparr>d_type = mousedown, d_button = 0, d_index = Str i, d_point = (100, 100)\<rparr>"

definition mouse_move :: "string \<Rightarrow> point \<Rightarrow> event" where
  "mouse_move i xy = PointerMove \<lparr>e_type = mousemove, e_page = xy, e_target = Element True (Str i)\<rparr>"

definition mouse_up :: "string \<Rightarrow> event" where
  "mouse_up i = PointerUp \<lparr>e_type = mouseup, e_page = (100, 100), e_target = Element True (Str i)\<rparr>"

text \<open>A release over an element that carries no \<^verbatim>\<open>data-index\<close>, and one with no
  element under the pointer.\<close>

definition mouse_up_outside :: event where
  "mouse_up_outside = PointerUp \<lparr>e_type = mouseup, e_page = (0, 0), e_target = Element False Null\<rparr>"

definition mouse_up_nowhere :: event where
  "mouse_up_nowhere = PointerUp \<lparr>e_type = mouseup, e_page = (0, 0), e_target = NonElement\<rparr>"

definition example_initial :: sys where
  "example_initial = initial example_squares True True"

text \<open>The example widget after a click on the white pawn of square 12: ClickTo.\<close>

definition example_clickTo :: sys where
  "example_clickTo =
     example_initial\<lparr>moveInputState := clickTo, startIndex := Str ''12'', endIndex := Null,
       movedPiece := Str ''wp'', startPoint := Some (100, 100),
       pointerMoveListener := Some mousemove, pointerUpListener := Some mouseup,
       windowListeners := [mousemove, mouseup], markers := [(Str ''12'', move)],
       drawMarkersDebounce := True\<rparr>"

text \<open>The example widget after the white pawn of square 12 was pressed and dragged past
  the threshold in dragPiece mode: DragTo.\<close>

definition example_dragTo :: sys where
  "example_dragTo =
     example_initial\<lparr>moveInputState := dragTo, startIndex := Str ''12'', endIndex := Null,
       movedPiece := Str ''wp'', startPoint := Some (100, 100),
       draggablePiece := Some \<lparr>dp_name = Str ''wp'', dp_position = Some (110, 100)\<rparr>,
       pointerMoveListener := Some mousemove, pointerUpListener := Some mouseup,
       windowListeners := [mousemove, mouseup], markers := [(Str ''12'', move)],
       piecesGroup := (piecesGroup example_initial)(''12'' \<mapsto> (''wp'', False)),
       drawMarkersDebounce := True\<rparr>"

definition square_params :: "string \<Rightarrow> params" where
  "square_params i = \<lparr>p_index = Str i, p_piece = Undefined, p_point = None, p_type = None\<rparr>"

text \<open>Touch events: a touch on a square, a touch move over a square, a lift over an
  element without \<^verbatim>\<open>data-index\<close>, and a lift at a point outside the viewport, where
  \<^verbatim>\<open>document.elementFromPoint\<close> gives \<^verbatim>\<open>null\<close>.\<close>

definition touch_start :: "string \<Rightarrow> event" where
  "touch_start i = PointerDown \<lparr>d_type = touchstart, d_button = 0, d_index = Str i, d_point = (100, 100)\<rparr>"

definition touch_move :: "string \<Rightarrow> point \<Rightarrow> event" where
  "touch_move i xy = PointerMove \<lparr>e_type = touchmove, e_page = xy, e_target = Element True (Str i)\<rparr>"

definition touch_end_outside :: event where
  "touch_end_outside = PointerUp \<lparr>e_type = touchend, e_page = (0, 0), e_target = Element False Null\<rparr>"

definition touch_end_nowhere :: event where
  "touch_end_nowhere = PointerUp \<lparr>e_type = touchend, e_page = (-5, -5), e_target = NoTarget\<rparr>"

text \<open>The window carries exactly the listeners that the move input holds.\<close>

definition own_listeners :: "sys \<Rightarrow> event_type list" where
  "own_listeners s =
     (case pointerMoveListener s of None \<Rightarrow> [] | Some m \<Rightarrow> [m]) @
     (case pointerUpListener s of None \<Rightarrow> [] | Some u \<Rightarrow> [u])"

text \<open>A pointer-up lands on a square when its target is an element with a truthy
  \<^verbatim>\<open>data-index\<close>.\<close>

definition on_square :: "pointer_event \<Rightarrow> bool" where
  "on_square e \<longleftrightarrow>
     (e_type e = mouseup \<or> e_type e = touchend) \<and>
     (case e_target e of Element b index \<Rightarrow> truthy index | _ \<Rightarrow> False)"

text \<open>In WaitForInputStart and PieceClickedThreshold no end square is held: endIndex is
  \<^verbatim>\<open>null\<close>, or still unassigned as the constructor leaves it.\<close>

definition endIndex_unset_early :: "sys \<Rightarrow> bool" where
  "endIndex_unset_early s \<longleftrightarrow>
     (moveInputState s = waitForInputStart \<or> moveInputState s = pieceClickedThreshold
        \<longrightarrow> endIndex s = Null \<or> endIndex s = Undefined)"

text \<open>The events whose handling enters MoveDone with a truthy target that
  moveDoneCallback accepts: a pointer-down in ClickTo on another square than the start
  square, and a pointer-up in DragTo or ClickDragTo on another square.\<close>

definition accepting :: "env \<Rightarrow> event \<Rightarrow> sys \<Rightarrow> bool" where
  "accepting env ev s =
     (case ev of
        PointerDown e \<Rightarrow>
          moveInputMode env \<noteq> viewOnly \<and>
          (d_type e = mousedown \<and> d_button e = 0 \<or> d_type e = touchstart) \<and>
          moveInputState s = clickTo \<and> d_index e \<noteq> startIndex s \<and> truthy (d_index e) \<and>
          moveDoneCallback env (startIndex s) (d_index e)
      | PointerUp e \<Rightarrow>
          pointerUpListener s = Some (e_type e) \<and>
          (e_type e = mouseup \<or> e_type e = touchend) \<and>
          (moveInputState s = dragTo \<or> moveInputState s = clickDragTo) \<and>
          (case e_target e of
             Element b index \<Rightarrow>
               index \<noteq> startIndex s \<and> truthy index \<and> moveDoneCallback env (startIndex s) index
           | _ \<Rightarrow> False)
      | _ \<Rightarrow> False)"

text \<open>The placement with the moved piece written back on the start square, as Reset and
  the release on the start square in ClickDragTo do.\<close>

definition restored :: "sys \<Rightarrow> squares" where
  "restored s = (squares s)(to_string (startIndex s) := movedPiece s)"
text \<open>Two click-to moves in quick succession, the first press released off the board:
  the pawn goes from 12 to 28 and on to 36 while the first animation still plays.\<close>

definition two_quick_moves :: "event list" where
  "two_quick_moves =
     [mouse_down ''12'', mouse_up ''12'', mouse_down ''28'', mouse_up_outside, DrawPiecesTimeout,
      mouse_down ''28'', mouse_up ''28'', mouse_down ''36'', mouse_up ''36'', AnimationFinished]"

text \<open>All animations handed to \<^verbatim>\<open>animatePieces\<close> so far, in the order of the calls:
  those already constructed, then those waiting in the queue.\<close>

definition pipeline :: "sys \<Rightarrow> animation list" where
  "pipeline s = map fst (startedAnimations s) @ animationQueue s"

text \<open>The animation that the handling of an event hands to \<^verbatim>\<open>animatePieces\<close>: the one
  of an outside request, and the one of a move accepted from ClickTo.\<close>

definition requested :: "env \<Rightarrow> event \<Rightarrow> sys \<Rightarrow> animation list" where
  "requested env ev s =
     (case ev of
        Animate fromSq toSq cb \<Rightarrow> [\<lparr>fromSquares = fromSq, toSquares = toSq, a_callback = cb\<rparr>]
      | PointerDown e \<Rightarrow>
          if accepting env ev s then
            [\<lparr>fromSquares = squares s,
              toSquares = (squares s)(to_string (startIndex s) := Null,
                                       to_string (d_index e) := movedPiece s),
              a_callback = ResetCallback\<rparr>]
          else []
      | _ \<Rightarrow> [])"

text \<open>The part of the view that the animation queue works on.\<close>

definition anim_view :: "sys \<Rightarrow> (animation \<times> rat) list \<times> animation list \<times> bool \<times> (animation \<times> rat) option" where
  "anim_view s = (startedAnimations s, animationQueue s, animationRunning s, currentAnimation s)"

text \<open>While an animation runs it is the one constructed last, and nothing waits in the
  queue unless one runs.\<close>

definition queue_inv :: "sys \<Rightarrow> bool" where
  "queue_inv s \<longleftrightarrow>
     (animationRunning s \<longrightarrow>
        startedAnimations s \<noteq> [] \<and> currentAnimation s = Some (last (startedAnimations s))) \<and>
     (\<not> animationRunning s \<longrightarrow> animationQueue s = [])"
text \<open>The animations requested along a run, in the order of the requests.\<close>

fun requests :: "env \<Rightarrow> event list \<Rightarrow> sys \<Rightarrow> animation list" where
  "requests env [] s = []"
| "requests env (ev # evs) s = requested env ev s @ requests env evs (after (dispatch env ev s))"
text \<open>An outside request to animate the white pawn from square 12 to another square.\<close>

definition animate_to :: "string \<Rightarrow> event" where
  "animate_to i = Animate example_squares (example_squares(''12'' := Null, i := Str ''wp'')) NoCallback"

text \<open>One animation requested and three more while it runs; three completions.\<close>

definition burst :: "event list" where
  "burst = [animate_to ''20'', animate_to ''28'', animate_to ''36'', animate_to ''44'',
            AnimationFinished, AnimationFinished, AnimationFinished]"

text \<open>The black pawn animated from 52 to 44 while the white pawn is being dragged.\<close>

definition animate_during_drag :: "event list" where
  "animate_during_drag =
     [mouse_down ''12'', mouse_move ''12'' (110, 100),
      Animate example_squares (example_squares(''52'' := Null, ''44'' := Str ''bp'')) NoCallback,
      AnimationFinished]"

text \<open>What a lookup by \<^verbatim>\<open>data-index\<close> finds when the pieces of a placement are drawn:
  on each of the sixty-four squares whose slot holds a non-empty name, a visible piece
  element of that name; nothing anywhere else. The squares are named by the decimal
  numerals of 0 to 63: one digit, then the tens 1 to 5 with any digit, then 60 to 63.\<close>

definition square_names :: "string list" where
  "square_names =
     map (\<lambda>c. [c]) ''0123456789''
     @ concat (map (\<lambda>a. map (\<lambda>b. [a, b]) ''0123456789'') ''12345'')
     @ map (\<lambda>b. [CHR ''6'', b]) ''0123''"

definition rendering :: "squares \<Rightarrow> string \<Rightarrow> (string \<times> bool) option" where
  "rendering sq k =
     (case sq k of
        Str n \<Rightarrow> if n \<noteq> [] \<and> k \<in> set square_names then Some (n, True) else None
      | _ \<Rightarrow> None)"

text \<open>The error a call has thrown, if any.\<close>

definition thrown :: "result \<Rightarrow> error option" where
  "thrown r = (case r of Inl (err, s) \<Rightarrow> Some err | Inr s \<Rightarrow> None)"

text \<open>The example widget in click mode, where no draggable piece is created.\<close>

definition click_env :: env where
  "click_env = example_env\<lparr>moveInputMode := click\<rparr>"

text \<open>The white pawn of square 12 is clicked, pressed again and moved past the threshold
  (ClickDragTo); meanwhile the application animates to a position without that pawn, and
  the animation completes.\<close>

definition capture_during_click_drag :: "event list" where
  "capture_during_click_drag =
     [mouse_down ''12'', mouse_up ''12'', mouse_down ''12'', mouse_move ''12'' (110, 100),
      Animate example_squares (example_squares(''12'' := Null)) NoCallback, AnimationFinished]"

text \<open>A release over an element that is no child of the board group but carries a
  \<^verbatim>\<open>data-index\<close>, such as a square of another board on the page.\<close>

definition mouse_up_foreign :: "string \<Rightarrow> event" where
  "mouse_up_foreign i = PointerUp \<lparr>e_type = mouseup, e_page = (0, 0), e_target = Element False (Str i)\<rparr>"

section \<open>Properties\<close>

lemma drawPieces_loop_lookup:
  "drawPieces_loop sq js pg k =
     (if k \<in> index_string ` set js \<and> truthy (sq k) then Some (to_string (sq k), True) else pg k)"
proof (induction js arbitrary: pg)
  case Nil
  show ?case by simp
next
  case (Cons i js)
  show ?case
    by (cases "sq (index_string i)") (auto simp: Cons.IH drawPiece_def)
qed

lemma index_strings: "map index_string [0..<64] = square_names"
  by code_simp

lemma drawPieces_loop_rendering:
  "drawPieces_loop sq [0..<64] Map.empty = rendering sq"
proof
  fix k
  have "index_string ` set [0..<64] = set square_names"
    using index_strings by (metis list.set_map)
  then show "drawPieces_loop sq [0..<64] Map.empty k = rendering sq k"
    unfolding drawPieces_loop_lookup rendering_def
    by (cases "sq k") auto
qed

lemma piecesGroup_initial:
  "piecesGroup (initial sq w b) k =
     (if k \<in> index_string ` {0..<64} \<and> truthy (sq k) then Some (to_string (sq k), True) else None)"
  by (simp add: initial_def drawPieces_def drawPieces_loop_lookup)

lemma index_string_12: "''12'' \<in> index_string ` {0..<64}"
  by (rule image_eqI [where x = 12]) (simp_all add: index_string_def digit_char_def)

lemma index_string_52: "''52'' \<in> index_string ` {0..<64}"
  by (rule image_eqI [where x = 52]) (simp_all add: index_string_def digit_char_def)

lemma piecesGroup_example_initial:
  "piecesGroup example_initial k =
     (if k = ''12'' then Some (''wp'', True) else if k = ''52'' then Some (''bp'', True) else None)"
  by (simp add: example_initial_def piecesGroup_initial example_squares_def
        index_string_12 index_string_52)

lemma example_initial_fields:
  "moveInputState example_initial = waitForInputStart"
  "startIndex example_initial = Undefined"
  "endIndex example_initial = Undefined"
  "movedPiece example_initial = Undefined"
  "startPoint example_initial = None"
  "draggablePiece example_initial = None"
  "pointerMoveListener example_initial = None"
  "pointerUpListener example_initial = None"
  "windowListeners example_initial = []"
  "canceled example_initial = []"
  "squares example_initial = example_squares"
  "markers example_initial = []"
  "inputWhiteEnabled example_initial = True"
  "inputBlackEnabled example_initial = True"
  "animationQueue example_initial = []"
  "animationRunning example_initial = False"
  "currentAnimation example_initial = None"
  "drawPiecesDebounce example_initial = False"
  "drawMarkersDebounce example_initial = False"
  "startedAnimations example_initial = []"
  "externalCalls example_initial = []"
  by (simp_all add: example_initial_def initial_def drawPieces_def)

lemma example_clickTo_reached:
  "run example_env [mouse_down ''12'', mouse_up ''12''] example_initial = example_clickTo"
  by (simp add: mouse_down_def mouse_up_def dispatch_def example_env_def
          onPointerDown_def onPointerUp_def after_def getPiece_def Let_def
          piecesGroup_example_initial example_initial_fields example_clickTo_def
          updateStartEndMarkers_def removeMarkers_def addMarker_def drawMarkersDebounced_def
          addPointerListeners_def removeDraggablePiece_def)

text \<open>
  Claim C9. Requesting one of the five guarded states from a state that the transition
  table does not list as its predecessor throws \<open>Error ''moveInputState''\<close> and the
  placement at the throw is the placement before the call; requesting
  PieceClickedThreshold from its legal predecessor while a pointer-move or pointer-up
  listener is still registered throws as well, again with the placement unchanged.
\<close>

theorem C9_illegal_transition_throws:
  "(newState \<in> set guarded \<and> moveInputState s \<notin> set (table_predecessors newState)
      \<longrightarrow> (\<exists>s'. setMoveInputState env newState params s = Inl (Error ''moveInputState'', s')
                \<and> squares s' = squares s))
   \<and> (moveInputState s = waitForInputStart \<and>
        (pointerMoveListener s \<noteq> None \<or> pointerUpListener s \<noteq> None)
      \<longrightarrow> (\<exists>s'. setMoveInputState env pieceClickedThreshold (Some p) s
                    = Inl (Error ''_pointerMoveListener or _pointerUpListener'', s')
                \<and> squares s' = squares s))"
proof (intro conjI impI)
  assume a: "newState \<in> set guarded \<and> moveInputState s \<notin> set (table_predecessors newState)"
  then show "\<exists>s'. setMoveInputState env newState params s = Inl (Error ''moveInputState'', s')
                \<and> squares s' = squares s"
    by (cases newState) (auto simp: guarded_def Let_def)
next
  assume a: "moveInputState s = waitForInputStart \<and>
        (pointerMoveListener s \<noteq> None \<or> pointerUpListener s \<noteq> None)"
  then show "\<exists>s'. setMoveInputState env pieceClickedThreshold (Some p) s
                    = Inl (Error ''_pointerMoveListener or _pointerUpListener'', s')
                \<and> squares s' = squares s"
    by (auto simp: Let_def updateStartEndMarkers_def removeMarkers_def addMarker_def
          drawMarkersDebounced_def)
qed

theorem C9_witness:
  "(\<exists>s'. setMoveInputState example_env dragTo None
            ((initial example_squares True True)\<lparr>moveInputState := clickTo\<rparr>)
          = Inl (Error ''moveInputState'', s')
        \<and> squares s' = example_squares)
   \<and> (\<exists>s'. setMoveInputState example_env pieceClickedThreshold
              (Some \<lparr>p_index = Str ''12'', p_piece = Str ''wp'', p_point = Some (0, 0),
                     p_type = Some mousedown\<rparr>)
              ((initial example_squares True True)\<lparr>pointerUpListener := Some mouseup\<rparr>)
          = Inl (Error ''_pointerMoveListener or _pointerUpListener'', s')
        \<and> squares s' = example_squares)"
  using C9_illegal_transition_throws [of dragTo
          "(initial example_squares True True)\<lparr>moveInputState := clickTo\<rparr>" example_env None]
        C9_illegal_transition_throws [of dragTo
          "(initial example_squares True True)\<lparr>pointerUpListener := Some mouseup\<rparr>" example_env None
          "\<lparr>p_index = Str ''12'', p_piece = Str ''wp'', p_point = Some (0, 0),
                     p_type = Some mousedown\<rparr>"]
  by (simp add: guarded_def initial_def drawPieces_def)

text \<open>
  Claim C10. In ClickTo, with the move listener's own event type: a pointer-move over a
  square of the board group whose index differs from startIndex and from endIndex makes
  that index the endIndex and rebuilds the move markers: every old move marker is removed,
  the other markers are kept, and one move marker on startIndex and one on the new
  endIndex are appended; the redraw of the markers is scheduled. A pointer-move over the
  start square, or over anything that is not a child of the board group, leaves endIndex
  null; if it was not null before, the move markers are rebuilt to the one on startIndex,
  otherwise the markers are untouched. In each case the state stays ClickTo, no draggable
  piece appears, the placement is unchanged and nothing is thrown.
\<close>

theorem C10_clickTo_hover:
  assumes "moveInputState s = clickTo"
    and "e_type e = mousemove \<or> e_type e = touchmove"
  shows "(e_target e = Element True (Str i) \<and> Str i \<noteq> startIndex s \<and> Str i \<noteq> endIndex s
            \<longrightarrow> (\<exists>s'. onPointerMove env e s = Inr s' \<and> endIndex s' = Str i \<and>
                      markers s' = filter (\<lambda>m. snd m \<noteq> move) (markers s)
                                     @ (if truthy (startIndex s) then [(startIndex s, move)] else [])
                                     @ (if i \<noteq> [] then [(Str i, move)] else []) \<and>
                      drawMarkersDebounce s' \<and>
                      startIndex s' = startIndex s \<and> moveInputState s' = clickTo))
       \<and> (e_target e = Element True (startIndex s) \<or> (\<forall>i. e_target e \<noteq> Element True i)
            \<longrightarrow> (\<exists>s'. onPointerMove env e s = Inr s' \<and> endIndex s' = Null \<and>
                      moveInputState s' = clickTo \<and> startIndex s' = startIndex s \<and>
                      (endIndex s \<noteq> Null \<longrightarrow>
                         markers s' = filter (\<lambda>m. snd m \<noteq> move) (markers s)
                                        @ (if truthy (startIndex s) then [(startIndex s, move)] else [])
                         \<and> drawMarkersDebounce s') \<and>
                      (endIndex s = Null \<longrightarrow> markers s' = markers s)))
       \<and> moveInputState (after (onPointerMove env e s)) = clickTo
       \<and> squares (after (onPointerMove env e s)) = squares s
       \<and> draggablePiece (after (onPointerMove env e s)) = draggablePiece s"
proof (intro conjI impI)
  assume "e_target e = Element True (Str i) \<and> Str i \<noteq> startIndex s \<and> Str i \<noteq> endIndex s"
  with assms show "\<exists>s'. onPointerMove env e s = Inr s' \<and> endIndex s' = Str i \<and>
                      markers s' = filter (\<lambda>m. snd m \<noteq> move) (markers s)
                                     @ (if truthy (startIndex s) then [(startIndex s, move)] else [])
                                     @ (if i \<noteq> [] then [(Str i, move)] else []) \<and>
                      drawMarkersDebounce s' \<and>
                      startIndex s' = startIndex s \<and> moveInputState s' = clickTo"
    by (auto simp: onPointerMove_def Let_def updateStartEndMarkers_def removeMarkers_def
          addMarker_def drawMarkersDebounced_def)
next
  assume "e_target e = Element True (startIndex s) \<or> (\<forall>i. e_target e \<noteq> Element True i)"
  with assms show "\<exists>s'. onPointerMove env e s = Inr s' \<and> endIndex s' = Null \<and>
                      moveInputState s' = clickTo \<and> startIndex s' = startIndex s \<and>
                      (endIndex s \<noteq> Null \<longrightarrow>
                         markers s' = filter (\<lambda>m. snd m \<noteq> move) (markers s)
                                        @ (if truthy (startIndex s) then [(startIndex s, move)] else [])
                         \<and> drawMarkersDebounce s') \<and>
                      (endIndex s = Null \<longrightarrow> markers s' = markers s)"
    by (cases "e_target e")
       (auto simp: onPointerMove_def Let_def updateStartEndMarkers_def removeMarkers_def
          addMarker_def drawMarkersDebounced_def split: bool.splits)
next
  from assms show "moveInputState (after (onPointerMove env e s)) = clickTo"
    by (cases "e_target e")
       (auto simp: onPointerMove_def Let_def updateStartEndMarkers_def removeMarkers_def
          addMarker_def drawMarkersDebounced_def after_def split: bool.splits)
next
  from assms show "squares (after (onPointerMove env e s)) = squares s"
    by (cases "e_target e")
       (auto simp: onPointerMove_def Let_def updateStartEndMarkers_def removeMarkers_def
          addMarker_def drawMarkersDebounced_def after_def split: bool.splits)
next
  from assms show "draggablePiece (after (onPointerMove env e s)) = draggablePiece s"
    by (cases "e_target e")
       (auto simp: onPointerMove_def Let_def updateStartEndMarkers_def removeMarkers_def
          addMarker_def drawMarkersDebounced_def after_def split: bool.splits)
qed

theorem C10_witness:
  "(\<exists>s'. onPointerMove example_env
          \<lparr>e_type = mousemove, e_page = (300, 100), e_target = Element True (Str ''28'')\<rparr>
          example_clickTo = Inr s'
        \<and> endIndex s' = Str ''28''
        \<and> markers s' = [(Str ''12'', move), (Str ''28'', move)]
        \<and> drawMarkersDebounce s' \<and> moveInputState s' = clickTo)
   \<and> (\<exists>s'. onPointerMove example_env
          \<lparr>e_type = mousemove, e_page = (100, 100), e_target = Element True (Str ''12'')\<rparr>
          (example_clickTo\<lparr>endIndex := Str ''28'',
                            markers := [(Str ''12'', move), (Str ''28'', move)]\<rparr>) = Inr s'
        \<and> endIndex s' = Null \<and> markers s' = [(Str ''12'', move)]
        \<and> moveInputState s' = clickTo \<and> startIndex s' = Str ''12'')
   \<and> markers (run example_env [mouse_down ''12'', mouse_up ''12'', mouse_move ''28'' (300, 100)]
                 example_initial) = [(Str ''12'', move), (Str ''28'', move)]
   \<and> markers (run example_env [mouse_down ''12'', mouse_up ''12'', mouse_move ''28'' (300, 100),
                                 mouse_move ''12'' (100, 100)]
                 example_initial) = [(Str ''12'', move)]"
proof -
  have computed:
      "markers (run example_env [mouse_down ''12'', mouse_up ''12'', mouse_move ''28'' (300, 100)]
                 example_initial) = [(Str ''12'', move), (Str ''28'', move)]"
      "markers (run example_env [mouse_down ''12'', mouse_up ''12'', mouse_move ''28'' (300, 100),
                                 mouse_move ''12'' (100, 100)]
                 example_initial) = [(Str ''12'', move)]"
    by code_simp+
  let ?t = "example_clickTo\<lparr>endIndex := Str ''28'',
                             markers := [(Str ''12'', move), (Str ''28'', move)]\<rparr>"
  have a: "moveInputState example_clickTo = clickTo" "startIndex example_clickTo = Str ''12''"
      "endIndex example_clickTo = Null" "markers example_clickTo = [(Str ''12'', move)]"
      "moveInputState ?t = clickTo" "startIndex ?t = Str ''12''" "endIndex ?t = Str ''28''"
      "markers ?t = [(Str ''12'', move), (Str ''28'', move)]"
    by (simp_all add: example_clickTo_def)
  from C10_clickTo_hover [of example_clickTo
          "\<lparr>e_type = mousemove, e_page = (300, 100), e_target = Element True (Str ''28'')\<rparr>"
          "''28''" example_env] a(1-4)
  have 1: "\<exists>s'. onPointerMove example_env
          \<lparr>e_type = mousemove, e_page = (300, 100), e_target = Element True (Str ''28'')\<rparr>
          example_clickTo = Inr s'
        \<and> endIndex s' = Str ''28''
        \<and> markers s' = [(Str ''12'', move), (Str ''28'', move)]
        \<and> drawMarkersDebounce s' \<and> moveInputState s' = clickTo"
    by auto
  from C10_clickTo_hover [of ?t
          "\<lparr>e_type = mousemove, e_page = (100, 100), e_target = Element True (Str ''12'')\<rparr>"
          "''99''" example_env] a(5-8)
  have 2: "\<exists>s'. onPointerMove example_env
          \<lparr>e_type = mousemove, e_page = (100, 100), e_target = Element True (Str ''12'')\<rparr>
          ?t = Inr s'
        \<and> endIndex s' = Null \<and> markers s' = [(Str ''12'', move)]
        \<and> moveInputState s' = clickTo \<and> startIndex s' = Str ''12''"
    by auto
  from 1 2 computed show ?thesis by blast
qed

lemmas state_updates =
  updateStartEndMarkers_def removeMarkers_def addMarker_def drawMarkersDebounced_def
  removeDraggablePiece_def removePointerMoveListener_def removePointerUpListener_def
  setPiece_def drawPiecesDebounced_def drawPieces_def moveCanceledCallback_def
  addPointerListeners_def

text \<open>Each operation writes only its own fields.\<close>

lemma setPiece_frame [simp]:
  "moveInputState (setPiece i p s) = moveInputState s"
  "startIndex (setPiece i p s) = startIndex s"
  "endIndex (setPiece i p s) = endIndex s"
  "movedPiece (setPiece i p s) = movedPiece s"
  "startPoint (setPiece i p s) = startPoint s"
  "draggablePiece (setPiece i p s) = draggablePiece s"
  "pointerMoveListener (setPiece i p s) = pointerMoveListener s"
  "pointerUpListener (setPiece i p s) = pointerUpListener s"
  "windowListeners (setPiece i p s) = windowListeners s"
  "canceled (setPiece i p s) = canceled s"
  "markers (setPiece i p s) = markers s"
  "inputWhiteEnabled (setPiece i p s) = inputWhiteEnabled s"
  "inputBlackEnabled (setPiece i p s) = inputBlackEnabled s"
  "piecesGroup (setPiece i p s) = piecesGroup s"
  "animationQueue (setPiece i p s) = animationQueue s"
  "animationRunning (setPiece i p s) = animationRunning s"
  "currentAnimation (setPiece i p s) = currentAnimation s"
  "drawPiecesDebounce (setPiece i p s) = drawPiecesDebounce s"
  "drawMarkersDebounce (setPiece i p s) = drawMarkersDebounce s"
  "startedAnimations (setPiece i p s) = startedAnimations s"
  "externalCalls (setPiece i p s) = externalCalls s"
  by (simp_all add: setPiece_def split: option.splits list.splits)

lemma addMarker_frame [simp]:
  "moveInputState (addMarker i ty s) = moveInputState s"
  "startIndex (addMarker i ty s) = startIndex s"
  "endIndex (addMarker i ty s) = endIndex s"
  "movedPiece (addMarker i ty s) = movedPiece s"
  "startPoint (addMarker i ty s) = startPoint s"
  "draggablePiece (addMarker i ty s) = draggablePiece s"
  "pointerMoveListener (addMarker i ty s) = pointerMoveListener s"
  "pointerUpListener (addMarker i ty s) = pointerUpListener s"
  "windowListeners (addMarker i ty s) = windowListeners s"
  "canceled (addMarker i ty s) = canceled s"
  "squares (addMarker i ty s) = squares s"
  "inputWhiteEnabled (addMarker i ty s) = inputWhiteEnabled s"
  "inputBlackEnabled (addMarker i ty s) = inputBlackEnabled s"
  "piecesGroup (addMarker i ty s) = piecesGroup s"
  "animationQueue (addMarker i ty s) = animationQueue s"
  "animationRunning (addMarker i ty s) = animationRunning s"
  "currentAnimation (addMarker i ty s) = currentAnimation s"
  "drawPiecesDebounce (addMarker i ty s) = drawPiecesDebounce s"
  "drawMarkersDebounce (addMarker i ty s) = drawMarkersDebounce s"
  "startedAnimations (addMarker i ty s) = startedAnimations s"
  "externalCalls (addMarker i ty s) = externalCalls s"
  by (simp_all add: addMarker_def split: option.splits list.splits)

lemma removeMarkers_frame [simp]:
  "moveInputState (removeMarkers ty s) = moveInputState s"
  "startIndex (removeMarkers ty s) = startIndex s"
  "endIndex (removeMarkers ty s) = endIndex s"
  "movedPiece (removeMarkers ty s) = movedPiece s"
  "startPoint (removeMarkers ty s) = startPoint s"
  "draggablePiece (removeMarkers ty s) = draggablePiece s"
  "pointerMoveListener (removeMarkers ty s) = pointerMoveListener s"
  "pointerUpListener (removeMarkers ty s) = pointerUpListener s"
  "windowListeners (removeMarkers ty s) = windowListeners s"
  "canceled (removeMarkers ty s) = canceled s"
  "squares (removeMarkers ty s) = squares s"
  "inputWhiteEnabled (removeMarkers ty s) = inputWhiteEnabled s"
  "inputBlackEnabled (removeMarkers ty s) = inputBlackEnabled s"
  "piecesGroup (removeMarkers ty s) = piecesGroup s"
  "animationQueue (removeMarkers ty s) = animationQueue s"
  "animationRunning (removeMarkers ty s) = animationRunning s"
  "currentAnimation (removeMarkers ty s) = currentAnimation s"
  "drawPiecesDebounce (removeMarkers ty s) = drawPiecesDebounce s"
  "drawMarkersDebounce (removeMarkers ty s) = drawMarkersDebounce s"
  "startedAnimations (removeMarkers ty s) = startedAnimations s"
  "externalCalls (removeMarkers ty s) = externalCalls s"
  by (simp_all add: removeMarkers_def split: option.splits list.splits)

lemma drawPieces_frame [simp]:
  "moveInputState (drawPieces sq s) = moveInputState s"
  "startIndex (drawPieces sq s) = startIndex s"
  "endIndex (drawPieces sq s) = endIndex s"
  "movedPiece (drawPieces sq s) = movedPiece s"
  "startPoint (drawPieces sq s) = startPoint s"
  "draggablePiece (drawPieces sq s) = draggablePiece s"
  "pointerMoveListener (drawPieces sq s) = pointerMoveListener s"
  "pointerUpListener (drawPieces sq s) = pointerUpListener s"
  "windowListeners (drawPieces sq s) = windowListeners s"
  "canceled (drawPieces sq s) = canceled s"
  "squares (drawPieces sq s) = squares s"
  "markers (drawPieces sq s) = markers s"
  "inputWhiteEnabled (drawPieces sq s) = inputWhiteEnabled s"
  "inputBlackEnabled (drawPieces sq s) = inputBlackEnabled s"
  "animationQueue (drawPieces sq s) = animationQueue s"
  "animationRunning (drawPieces sq s) = animationRunning s"
  "currentAnimation (drawPieces sq s) = currentAnimation s"
  "drawPiecesDebounce (drawPieces sq s) = drawPiecesDebounce s"
  "drawMarkersDebounce (drawPieces sq s) = drawMarkersDebounce s"
  "startedAnimations (drawPieces sq s) = startedAnimations s"
  "externalCalls (drawPieces sq s) = externalCalls s"
  by (simp_all add: drawPieces_def split: option.splits list.splits)

lemma drawPiecesDebounced_frame [simp]:
  "moveInputState (drawPiecesDebounced s) = moveInputState s"
  "startIndex (drawPiecesDebounced s) = startIndex s"
  "endIndex (drawPiecesDebounced s) = endIndex s"
  "movedPiece (drawPiecesDebounced s) = movedPiece s"
  "startPoint (drawPiecesDebounced s) = startPoint s"
  "draggablePiece (drawPiecesDebounced s) = draggablePiece s"
  "pointerMoveListener (drawPiecesDebounced s) = pointerMoveListener s"
  "pointerUpListener (drawPiecesDebounced s) = pointerUpListener s"
  "windowListeners (drawPiecesDebounced s) = windowListeners s"
  "canceled (drawPiecesDebounced s) = canceled s"
  "squares (drawPiecesDebounced s) = squares s"
  "markers (drawPiecesDebounced s) = markers s"
  "inputWhiteEnabled (drawPiecesDebounced s) = inputWhiteEnabled s"
  "inputBlackEnabled (drawPiecesDebounced s) = inputBlackEnabled s"
  "piecesGroup (drawPiecesDebounced s) = piecesGroup s"
  "animationQueue (drawPiecesDebounced s) = animationQueue s"
  "animationRunning (drawPiecesDebounced s) = animationRunning s"
  "currentAnimation (drawPiecesDebounced s) = currentAnimation s"
  "drawMarkersDebounce (drawPiecesDebounced s) = drawMarkersDebounce s"
  "startedAnimations (drawPiecesDebounced s) = startedAnimations s"
  "externalCalls (drawPiecesDebounced s) = externalCalls s"
  by (simp_all add: drawPiecesDebounced_def split: option.splits list.splits)

lemma drawPiecesTimeout_frame [simp]:
  "moveInputState (drawPiecesTimeout s) = moveInputState s"
  "startIndex (drawPiecesTimeout s) = startIndex s"
  "endIndex (drawPiecesTimeout s) = endIndex s"
  "movedPiece (drawPiecesTimeout s) = movedPiece s"
  "startPoint (drawPiecesTimeout s) = startPoint s"
  "draggablePiece (drawPiecesTimeout s) = draggablePiece s"
  "pointerMoveListener (drawPiecesTimeout s) = pointerMoveListener s"
  "pointerUpListener (drawPiecesTimeout s) = pointerUpListener s"
  "windowListeners (drawPiecesTimeout s) = windowListeners s"
  "canceled (drawPiecesTimeout s) = canceled s"
  "squares (drawPiecesTimeout s) = squares s"
  "markers (drawPiecesTimeout s) = markers s"
  "inputWhiteEnabled (drawPiecesTimeout s) = inputWhiteEnabled s"
  "inputBlackEnabled (drawPiecesTimeout s) = inputBlackEnabled s"
  "animationQueue (drawPiecesTimeout s) = animationQueue s"
  "animationRunning (drawPiecesTimeout s) = animationRunning s"
  "currentAnimation (drawPiecesTimeout s) = currentAnimation s"
  "drawMarkersDebounce (drawPiecesTimeout s) = drawMarkersDebounce s"
  "startedAnimations (drawPiecesTimeout s) = startedAnimations s"
  "externalCalls (drawPiecesTimeout s) = externalCalls s"
  by (simp_all add: drawPiecesTimeout_def drawPieces_def split: option.splits list.splits)

lemma drawMarkersDebounced_frame [simp]:
  "moveInputState (drawMarkersDebounced s) = moveInputState s"
  "startIndex (drawMarkersDebounced s) = startIndex s"
  "endIndex (drawMarkersDebounced s) = endIndex s"
  "movedPiece (drawMarkersDebounced s) = movedPiece s"
  "startPoint (drawMarkersDebounced s) = startPoint s"
  "draggablePiece (drawMarkersDebounced s) = draggablePiece s"
  "pointerMoveListener (drawMarkersDebounced s) = pointerMoveListener s"
  "pointerUpListener (drawMarkersDebounced s) = pointerUpListener s"
  "windowListeners (drawMarkersDebounced s) = windowListeners s"
  "canceled (drawMarkersDebounced s) = canceled s"
  "squares (drawMarkersDebounced s) = squares s"
  "markers (drawMarkersDebounced s) = markers s"
  "inputWhiteEnabled (drawMarkersDebounced s) = inputWhiteEnabled s"
  "inputBlackEnabled (drawMarkersDebounced s) = inputBlackEnabled s"
  "piecesGroup (drawMarkersDebounced s) = piecesGroup s"
  "animationQueue (drawMarkersDebounced s) = animationQueue s"
  "animationRunning (drawMarkersDebounced s) = animationRunning s"
  "currentAnimation (drawMarkersDebounced s) = currentAnimation s"
  "drawPiecesDebounce (drawMarkersDebounced s) = drawPiecesDebounce s"
  "startedAnimations (drawMarkersDebounced s) = startedAnimations s"
  "externalCalls (drawMarkersDebounced s) = externalCalls s"
  by (simp_all add: drawMarkersDebounced_def split: option.splits list.splits)

lemma updateStartEndMarkers_frame [simp]:
  "moveInputState (updateStartEndMarkers s) = moveInputState s"
  "startIndex (updateStartEndMarkers s) = startIndex s"
  "endIndex (updateStartEndMarkers s) = endIndex s"
  "movedPiece (updateStartEndMarkers s) = movedPiece s"
  "startPoint (updateStartEndMarkers s) = startPoint s"
  "draggablePiece (updateStartEndMarkers s) = draggablePiece s"
  "pointerMoveListener (updateStartEndMarkers s) = pointerMoveListener s"
  "pointerUpListener (updateStartEndMarkers s) = pointerUpListener s"
  "windowListeners (updateStartEndMarkers s) = windowListeners s"
  "canceled (updateStartEndMarkers s) = canceled s"
  "squares (updateStartEndMarkers s) = squares s"
  "inputWhiteEnabled (updateStartEndMarkers s) = inputWhiteEnabled s"
  "inputBlackEnabled (updateStartEndMarkers s) = inputBlackEnabled s"
  "piecesGroup (updateStartEndMarkers s) = piecesGroup s"
  "animationQueue (updateStartEndMarkers s) = animationQueue s"
  "animationRunning (updateStartEndMarkers s) = animationRunning s"
  "currentAnimation (updateStartEndMarkers s) = currentAnimation s"
  "drawPiecesDebounce (updateStartEndMarkers s) = drawPiecesDebounce s"
  "startedAnimations (updateStartEndMarkers s) = startedAnimations s"
  "externalCalls (updateStartEndMarkers s) = externalCalls s"
  by (simp_all add: updateStartEndMarkers_def removeMarkers_def addMarker_def drawMarkersDebounced_def Let_def split: option.splits list.splits)

lemma removeDraggablePiece_frame [simp]:
  "moveInputState (removeDraggablePiece s) = moveInputState s"
  "startIndex (removeDraggablePiece s) = startIndex s"
  "endIndex (removeDraggablePiece s) = endIndex s"
  "movedPiece (removeDraggablePiece s) = movedPiece s"
  "startPoint (removeDraggablePiece s) = startPoint s"
  "pointerMoveListener (removeDraggablePiece s) = pointerMoveListener s"
  "pointerUpListener (removeDraggablePiece s) = pointerUpListener s"
  "windowListeners (removeDraggablePiece s) = windowListeners s"
  "canceled (removeDraggablePiece s) = canceled s"
  "squares (removeDraggablePiece s) = squares s"
  "markers (removeDraggablePiece s) = markers s"
  "inputWhiteEnabled (removeDraggablePiece s) = inputWhiteEnabled s"
  "inputBlackEnabled (removeDraggablePiece s) = inputBlackEnabled s"
  "piecesGroup (removeDraggablePiece s) = piecesGroup s"
  "animationQueue (removeDraggablePiece s) = animationQueue s"
  "animationRunning (removeDraggablePiece s) = animationRunning s"
  "currentAnimation (removeDraggablePiece s) = currentAnimation s"
  "drawPiecesDebounce (removeDraggablePiece s) = drawPiecesDebounce s"
  "drawMarkersDebounce (removeDraggablePiece s) = drawMarkersDebounce s"
  "startedAnimations (removeDraggablePiece s) = startedAnimations s"
  "externalCalls (removeDraggablePiece s) = externalCalls s"
  by (simp_all add: removeDraggablePiece_def split: option.splits list.splits)

lemma removePointerMoveListener_frame [simp]:
  "moveInputState (removePointerMoveListener s) = moveInputState s"
  "startIndex (removePointerMoveListener s) = startIndex s"
  "endIndex (removePointerMoveListener s) = endIndex s"
  "movedPiece (removePointerMoveListener s) = movedPiece s"
  "startPoint (removePointerMoveListener s) = startPoint s"
  "draggablePiece (removePointerMoveListener s) = draggablePiece s"
  "pointerUpListener (removePointerMoveListener s) = pointerUpListener s"
  "canceled (removePointerMoveListener s) = canceled s"
  "squares (removePointerMoveListener s) = squares s"
  "markers (removePointerMoveListener s) = markers s"
  "inputWhiteEnabled (removePointerMoveListener s) = inputWhiteEnabled s"
  "inputBlackEnabled (removePointerMoveListener s) = inputBlackEnabled s"
  "piecesGroup (removePointerMoveListener s) = piecesGroup s"
  "animationQueue (removePointerMoveListener s) = animationQueue s"
  "animationRunning (removePointerMoveListener s) = animationRunning s"
  "currentAnimation (removePointerMoveListener s) = currentAnimation s"
  "drawPiecesDebounce (removePointerMoveListener s) = drawPiecesDebounce s"
  "drawMarkersDebounce (removePointerMoveListener s) = drawMarkersDebounce s"
  "startedAnimations (removePointerMoveListener s) = startedAnimations s"
  "externalCalls (removePointerMoveListener s) = externalCalls s"
  by (simp_all add: removePointerMoveListener_def split: option.splits list.splits)

lemma removePointerUpListener_frame [simp]:
  "moveInputState (removePointerUpListener s) = moveInputState s"
  "startIndex (removePointerUpListener s) = startIndex s"
  "endIndex (removePointerUpListener s) = endIndex s"
  "movedPiece (removePointerUpListener s) = movedPiece s"
  "startPoint (removePointerUpListener s) = startPoint s"
  "draggablePiece (removePointerUpListener s) = draggablePiece s"
  "pointerMoveListener (removePointerUpListener s) = pointerMoveListener s"
  "canceled (removePointerUpListener s) = canceled s"
  "squares (removePointerUpListener s) = squares s"
  "markers (removePointerUpListener s) = markers s"
  "inputWhiteEnabled (removePointerUpListener s) = inputWhiteEnabled s"
  "inputBlackEnabled (removePointerUpListener s) = inputBlackEnabled s"
  "piecesGroup (removePointerUpListener s) = piecesGroup s"
  "animationQueue (removePointerUpListener s) = animationQueue s"
  "animationRunning (removePointerUpListener s) = animationRunning s"
  "currentAnimation (removePointerUpListener s) = currentAnimation s"
  "drawPiecesDebounce (removePointerUpListener s) = drawPiecesDebounce s"
  "drawMarkersDebounce (removePointerUpListener s) = drawMarkersDebounce s"
  "startedAnimations (removePointerUpListener s) = startedAnimations s"
  "externalCalls (removePointerUpListener s) = externalCalls s"
  by (simp_all add: removePointerUpListener_def split: option.splits list.splits)

lemma addPointerListeners_frame [simp]:
  "moveInputState (addPointerListeners m u s) = moveInputState s"
  "startIndex (addPointerListeners m u s) = startIndex s"
  "endIndex (addPointerListeners m u s) = endIndex s"
  "movedPiece (addPointerListeners m u s) = movedPiece s"
  "startPoint (addPointerListeners m u s) = startPoint s"
  "draggablePiece (addPointerListeners m u s) = draggablePiece s"
  "canceled (addPointerListeners m u s) = canceled s"
  "squares (addPointerListeners m u s) = squares s"
  "markers (addPointerListeners m u s) = markers s"
  "inputWhiteEnabled (addPointerListeners m u s) = inputWhiteEnabled s"
  "inputBlackEnabled (addPointerListeners m u s) = inputBlackEnabled s"
  "piecesGroup (addPointerListeners m u s) = piecesGroup s"
  "animationQueue (addPointerListeners m u s) = animationQueue s"
  "animationRunning (addPointerListeners m u s) = animationRunning s"
  "currentAnimation (addPointerListeners m u s) = currentAnimation s"
  "drawPiecesDebounce (addPointerListeners m u s) = drawPiecesDebounce s"
  "drawMarkersDebounce (addPointerListeners m u s) = drawMarkersDebounce s"
  "startedAnimations (addPointerListeners m u s) = startedAnimations s"
  "externalCalls (addPointerListeners m u s) = externalCalls s"
  by (simp_all add: addPointerListeners_def split: option.splits list.splits)

lemma moveCanceledCallback_frame [simp]:
  "moveInputState (moveCanceledCallback r i s) = moveInputState s"
  "startIndex (moveCanceledCallback r i s) = startIndex s"
  "endIndex (moveCanceledCallback r i s) = endIndex s"
  "movedPiece (moveCanceledCallback r i s) = movedPiece s"
  "startPoint (moveCanceledCallback r i s) = startPoint s"
  "draggablePiece (moveCanceledCallback r i s) = draggablePiece s"
  "pointerMoveListener (moveCanceledCallback r i s) = pointerMoveListener s"
  "pointerUpListener (moveCanceledCallback r i s) = pointerUpListener s"
  "windowListeners (moveCanceledCallback r i s) = windowListeners s"
  "squares (moveCanceledCallback r i s) = squares s"
  "markers (moveCanceledCallback r i s) = markers s"
  "inputWhiteEnabled (moveCanceledCallback r i s) = inputWhiteEnabled s"
  "inputBlackEnabled (moveCanceledCallback r i s) = inputBlackEnabled s"
  "piecesGroup (moveCanceledCallback r i s) = piecesGroup s"
  "animationQueue (moveCanceledCallback r i s) = animationQueue s"
  "animationRunning (moveCanceledCallback r i s) = animationRunning s"
  "currentAnimation (moveCanceledCallback r i s) = currentAnimation s"
  "drawPiecesDebounce (moveCanceledCallback r i s) = drawPiecesDebounce s"
  "drawMarkersDebounce (moveCanceledCallback r i s) = drawMarkersDebounce s"
  "startedAnimations (moveCanceledCallback r i s) = startedAnimations s"
  "externalCalls (moveCanceledCallback r i s) = externalCalls s"
  by (simp_all add: moveCanceledCallback_def split: option.splits list.splits)

lemma new_ChessboardPiecesAnimation_frame [simp]:
  "moveInputState (new_ChessboardPiecesAnimation a d s) = moveInputState s"
  "startIndex (new_ChessboardPiecesAnimation a d s) = startIndex s"
  "endIndex (new_ChessboardPiecesAnimation a d s) = endIndex s"
  "movedPiece (new_ChessboardPiecesAnimation a d s) = movedPiece s"
  "startPoint (new_ChessboardPiecesAnimation a d s) = startPoint s"
  "draggablePiece (new_ChessboardPiecesAnimation a d s) = draggablePiece s"
  "pointerMoveListener (new_ChessboardPiecesAnimation a d s) = pointerMoveListener s"
  "pointerUpListener (new_ChessboardPiecesAnimation a d s) = pointerUpListener s"
  "windowListeners (new_ChessboardPiecesAnimation a d s) = windowListeners s"
  "canceled (new_ChessboardPiecesAnimation a d s) = canceled s"
  "squares (new_ChessboardPiecesAnimation a d s) = squares s"
  "markers (new_ChessboardPiecesAnimation a d s) = markers s"
  "inputWhiteEnabled (new_ChessboardPiecesAnimation a d s) = inputWhiteEnabled s"
  "inputBlackEnabled (new_ChessboardPiecesAnimation a d s) = inputBlackEnabled s"
  "piecesGroup (new_ChessboardPiecesAnimation a d s) = piecesGroup s"
  "animationQueue (new_ChessboardPiecesAnimation a d s) = animationQueue s"
  "currentAnimation (new_ChessboardPiecesAnimation a d s) = currentAnimation s"
  "drawPiecesDebounce (new_ChessboardPiecesAnimation a d s) = drawPiecesDebounce s"
  "drawMarkersDebounce (new_ChessboardPiecesAnimation a d s) = drawMarkersDebounce s"
  "externalCalls (new_ChessboardPiecesAnimation a d s) = externalCalls s"
  by (simp_all add: new_ChessboardPiecesAnimation_def split: option.splits list.splits)

lemma nextPieceAnimationInQueue_frame [simp]:
  "moveInputState (nextPieceAnimationInQueue env s) = moveInputState s"
  "startIndex (nextPieceAnimationInQueue env s) = startIndex s"
  "endIndex (nextPieceAnimationInQueue env s) = endIndex s"
  "movedPiece (nextPieceAnimationInQueue env s) = movedPiece s"
  "startPoint (nextPieceAnimationInQueue env s) = startPoint s"
  "draggablePiece (nextPieceAnimationInQueue env s) = draggablePiece s"
  "pointerMoveListener (nextPieceAnimationInQueue env s) = pointerMoveListener s"
  "pointerUpListener (nextPieceAnimationInQueue env s) = pointerUpListener s"
  "windowListeners (nextPieceAnimationInQueue env s) = windowListeners s"
  "canceled (nextPieceAnimationInQueue env s) = canceled s"
  "squares (nextPieceAnimationInQueue env s) = squares s"
  "markers (nextPieceAnimationInQueue env s) = markers s"
  "inputWhiteEnabled (nextPieceAnimationInQueue env s) = inputWhiteEnabled s"
  "inputBlackEnabled (nextPieceAnimationInQueue env s) = inputBlackEnabled s"
  "piecesGroup (nextPieceAnimationInQueue env s) = piecesGroup s"
  "drawPiecesDebounce (nextPieceAnimationInQueue env s) = drawPiecesDebounce s"
  "drawMarkersDebounce (nextPieceAnimationInQueue env s) = drawMarkersDebounce s"
  "externalCalls (nextPieceAnimationInQueue env s) = externalCalls s"
  by (simp_all add: nextPieceAnimationInQueue_def new_ChessboardPiecesAnimation_def Let_def split: option.splits list.splits)

lemma animatePieces_frame [simp]:
  "moveInputState (animatePieces env f t cb s) = moveInputState s"
  "startIndex (animatePieces env f t cb s) = startIndex s"
  "endIndex (animatePieces env f t cb s) = endIndex s"
  "movedPiece (animatePieces env f t cb s) = movedPiece s"
  "startPoint (animatePieces env f t cb s) = startPoint s"
  "draggablePiece (animatePieces env f t cb s) = draggablePiece s"
  "pointerMoveListener (animatePieces env f t cb s) = pointerMoveListener s"
  "pointerUpListener (animatePieces env f t cb s) = pointerUpListener s"
  "windowListeners (animatePieces env f t cb s) = windowListeners s"
  "canceled (animatePieces env f t cb s) = canceled s"
  "squares (animatePieces env f t cb s) = squares s"
  "markers (animatePieces env f t cb s) = markers s"
  "inputWhiteEnabled (animatePieces env f t cb s) = inputWhiteEnabled s"
  "inputBlackEnabled (animatePieces env f t cb s) = inputBlackEnabled s"
  "piecesGroup (animatePieces env f t cb s) = piecesGroup s"
  "drawPiecesDebounce (animatePieces env f t cb s) = drawPiecesDebounce s"
  "drawMarkersDebounce (animatePieces env f t cb s) = drawMarkersDebounce s"
  "externalCalls (animatePieces env f t cb s) = externalCalls s"
  by (simp_all add: animatePieces_def nextPieceAnimationInQueue_def new_ChessboardPiecesAnimation_def Let_def split: option.splits list.splits)

lemma written_fields [simp]:
  "squares (setPiece i p s) = (squares s)(to_string i := p)"
  "piecesGroup (drawPieces sq s) = drawPieces_loop sq [0..<64] Map.empty"
  "drawPiecesDebounce (drawPiecesDebounced s) = True"
  "draggablePiece (removeDraggablePiece s) = None"
  "pointerMoveListener (removePointerMoveListener s) = None"
  "pointerUpListener (removePointerUpListener s) = None"
  "pointerMoveListener (addPointerListeners m u s) = Some m"
  "pointerUpListener (addPointerListeners m u s) = Some u"
  "windowListeners (addPointerListeners m u s) = windowListeners s @ [m, u]"
  "canceled (moveCanceledCallback r i s) = canceled s @ [(r, i)]"
  "drawMarkersDebounce (updateStartEndMarkers s) = True"
  "markers (updateStartEndMarkers s) =
     filter (\<lambda>m. snd m \<noteq> move) (markers s)
       @ (if truthy (startIndex s) then [(startIndex s, move)] else [])
       @ (if truthy (endIndex s) then [(endIndex s, move)] else [])"
  by (simp_all add: state_updates Let_def split: option.splits)

lemma reset_eq:
  "setMoveInputState env reset params s =
     Inr ((removePointerUpListener (removePointerMoveListener (removeDraggablePiece
            (updateStartEndMarkers
               ((if truthy (startIndex s) \<and> \<not> truthy (endIndex s) \<and> truthy (movedPiece s)
                 then setPiece (startIndex s) (movedPiece s) (s\<lparr>moveInputState := reset\<rparr>)
                 else s\<lparr>moveInputState := reset\<rparr>)
                \<lparr>startIndex := Null, endIndex := Null, movedPiece := Null\<rparr>)))))
          \<lparr>moveInputState := waitForInputStart\<rparr>)"
  by (simp add: Let_def)

lemma reset_returns:
  "\<exists>s'. setMoveInputState env reset params s = Inr s' \<and> at_rest s' \<and>
        squares s' = (if truthy (startIndex s) \<and> \<not> truthy (endIndex s) \<and> truthy (movedPiece s)
                      then (squares s)(to_string (startIndex s) := movedPiece s) else squares s) \<and>
        markers s' = filter (\<lambda>m. snd m \<noteq> move) (markers s) \<and>
        piecesGroup s' = piecesGroup s \<and> canceled s' = canceled s \<and>
        animationQueue s' = animationQueue s \<and> animationRunning s' = animationRunning s \<and>
        currentAnimation s' = currentAnimation s \<and> startedAnimations s' = startedAnimations s \<and>
        drawPiecesDebounce s' = drawPiecesDebounce s \<and>
        inputWhiteEnabled s' = inputWhiteEnabled s \<and> inputBlackEnabled s' = inputBlackEnabled s"
  unfolding reset_eq by (simp add: at_rest_def)

lemma animatePieces_pipeline:
  "map fst (startedAnimations (animatePieces env f t cb s)) @ animationQueue (animatePieces env f t cb s)
     = map fst (startedAnimations s) @ animationQueue s
         @ [\<lparr>fromSquares = f, toSquares = t, a_callback = cb\<rparr>]"
  by (simp add: animatePieces_def nextPieceAnimationInQueue_def new_ChessboardPiecesAnimation_def
        Let_def split: list.splits)

lemma reset_callback_at_rest:
  "a_callback a = ResetCallback \<Longrightarrow> \<exists>t'. animation_completed env a t = Inr t' \<and> at_rest t'"
  using reset_returns [of env None]
  by (simp add: animation_completed_def run_callback_def Let_def del: setMoveInputState.simps) blast

lemma moveDone_rejected:
  assumes "moveInputState s \<in> set [dragTo, clickTo, clickDragTo]"
    and "\<not> (truthy (p_index p) \<and> moveDoneCallback env (startIndex s) (p_index p))"
  shows "setMoveInputState env moveDone (Some p) s
           = setMoveInputState env reset None
               (drawPiecesDebounced (s\<lparr>moveInputState := moveDone, endIndex := p_index p\<rparr>))"
  using assms by (auto simp: Let_def simp del: setMoveInputState.simps(8))

lemma moveDone_accepted:
  assumes "moveInputState s \<in> set [dragTo, clickTo, clickDragTo]"
    and "truthy (p_index p)" and "moveDoneCallback env (startIndex s) (p_index p)"
  shows "setMoveInputState env moveDone (Some p) s
           = (let s3 = setPiece (p_index p) (movedPiece s)
                         (setPiece (startIndex s) Null
                            (s\<lparr>moveInputState := moveDone, endIndex := p_index p\<rparr>))
              in if moveInputState s = clickTo
                 then Inr (animatePieces env (squares s) (squares s3) ResetCallback s3)
                 else setMoveInputState env reset None (drawPieces (squares s3) s3))"
  using assms by (auto simp: Let_def simp del: setMoveInputState.simps(8))

lemma example_dragTo_reached:
  "run example_env [mouse_down ''12'', mouse_move ''12'' (110, 100)] example_initial = example_dragTo"
  by (simp add: mouse_down_def mouse_move_def dispatch_def example_env_def
          onPointerDown_def onPointerMove_def after_def getPiece_def Let_def
          piecesGroup_example_initial example_initial_fields example_dragTo_def
          beyond_threshold_def DRAG_THRESHOLD_def bind_result_def setPieceVisibility_def
          createDraggablePiece_def moveDraggablePiece_def)

text \<open>
  Claim C3. Entering MoveDone from DragTo, ClickDragTo or ClickTo with a truthy target
  index for which moveDoneCallback returns false does not throw; the placement afterwards
  is the placement before, the machine is at rest in WaitForInputStart, no animation has
  been added, and a redraw is scheduled. When its timer fires, the view holds, on each of
  the sixty-four squares whose slot of the unchanged placement is occupied, a visible
  piece element of that name, and no other piece element; the placement stays as it was.
\<close>

theorem C3_rejected_move_restores:
  assumes "moveInputState s \<in> set [dragTo, clickTo, clickDragTo]"
    and "truthy (p_index p)"
    and "\<not> moveDoneCallback env (startIndex s) (p_index p)"
  shows "\<exists>s'. setMoveInputState env moveDone (Some p) s = Inr s'
      \<and> squares s' = squares s
      \<and> at_rest s'
      \<and> startedAnimations s' = startedAnimations s \<and> animationQueue s' = animationQueue s
      \<and> drawPiecesDebounce s'
      \<and> thrown (dispatch env DrawPiecesTimeout s') = None
      \<and> piecesGroup (after (dispatch env DrawPiecesTimeout s')) = rendering (squares s)
      \<and> squares (after (dispatch env DrawPiecesTimeout s')) = squares s
      \<and> at_rest (after (dispatch env DrawPiecesTimeout s'))"
proof -
  let ?s1 = "drawPiecesDebounced (s\<lparr>moveInputState := moveDone, endIndex := p_index p\<rparr>)"
  have r: "setMoveInputState env moveDone (Some p) s = setMoveInputState env reset None ?s1"
    using moveDone_rejected [OF assms(1)] assms(3) by blast
  obtain s' where s': "setMoveInputState env reset None ?s1 = Inr s'" "at_rest s'"
      "squares s' = (if truthy (startIndex ?s1) \<and> \<not> truthy (endIndex ?s1) \<and> truthy (movedPiece ?s1)
                      then (squares ?s1)(to_string (startIndex ?s1) := movedPiece ?s1)
                      else squares ?s1)"
      "animationQueue s' = animationQueue ?s1"
      "startedAnimations s' = startedAnimations ?s1"
      "drawPiecesDebounce s' = drawPiecesDebounce ?s1"
    using reset_returns [of env None ?s1] by blast
  have sq: "squares s' = squares s"
    using s'(3) assms(2) by simp
  have pend: "drawPiecesDebounce s'"
    using s'(6) by simp
  have timer: "dispatch env DrawPiecesTimeout s'
                 = Inr (drawPieces (squares s) (s'\<lparr>drawPiecesDebounce := False\<rparr>))"
    using pend sq by (simp add: dispatch_def drawPiecesTimeout_def)
  have drawn: "piecesGroup (drawPieces (squares s) (s'\<lparr>drawPiecesDebounce := False\<rparr>))
                 = rendering (squares s)"
      "squares (drawPieces (squares s) (s'\<lparr>drawPiecesDebounce := False\<rparr>)) = squares s"
      "at_rest (drawPieces (squares s) (s'\<lparr>drawPiecesDebounce := False\<rparr>))"
    using sq s'(2) by (simp_all add: drawPieces_loop_rendering at_rest_def)
  show ?thesis
    using r s'(1,2,4,5) sq pend timer drawn
    by (intro exI [of _ s']) (simp add: thrown_def after_def del: setMoveInputState.simps)
qed

theorem C3_witness:
  "\<exists>s'. setMoveInputState (example_env\<lparr>moveDoneCallback := (\<lambda>i j. False)\<rparr>) moveDone
           (Some (square_params ''28'')) example_dragTo = Inr s'
      \<and> squares s' = example_squares \<and> at_rest s' \<and> drawPiecesDebounce s'
      \<and> piecesGroup example_dragTo ''12'' = Some (''wp'', False)
      \<and> piecesGroup (after (dispatch (example_env\<lparr>moveDoneCallback := (\<lambda>i j. False)\<rparr>)
                               DrawPiecesTimeout s')) ''12'' = Some (''wp'', True)
      \<and> piecesGroup (after (dispatch (example_env\<lparr>moveDoneCallback := (\<lambda>i j. False)\<rparr>)
                               DrawPiecesTimeout s')) ''52'' = Some (''bp'', True)
      \<and> piecesGroup (after (dispatch (example_env\<lparr>moveDoneCallback := (\<lambda>i j. False)\<rparr>)
                               DrawPiecesTimeout s')) ''28'' = None
      \<and> piecesGroup (run (example_env\<lparr>moveDoneCallback := (\<lambda>i j. False)\<rparr>) [DrawPiecesTimeout]
            (after (setMoveInputState (example_env\<lparr>moveDoneCallback := (\<lambda>i j. False)\<rparr>) moveDone
                      (Some (square_params ''28'')) example_dragTo))) ''12'' = Some (''wp'', True)"
proof -
  have computed: "piecesGroup (run (example_env\<lparr>moveDoneCallback := (\<lambda>i j. False)\<rparr>) [DrawPiecesTimeout]
            (after (setMoveInputState (example_env\<lparr>moveDoneCallback := (\<lambda>i j. False)\<rparr>) moveDone
                      (Some (square_params ''28'')) example_dragTo))) ''12'' = Some (''wp'', True)"
    by code_simp
  have a: "moveInputState example_dragTo \<in> set [dragTo, clickTo, clickDragTo]"
      "truthy (p_index (square_params ''28''))"
      "\<not> moveDoneCallback (example_env\<lparr>moveDoneCallback := (\<lambda>i j. False)\<rparr>)
           (startIndex example_dragTo) (p_index (square_params ''28''))"
    by (simp_all add: example_dragTo_def square_params_def)
  have sq: "squares example_dragTo = example_squares"
      "piecesGroup example_dragTo ''12'' = Some (''wp'', False)"
    by (simp_all add: example_dragTo_def example_initial_fields)
  have r: "rendering example_squares ''12'' = Some (''wp'', True)"
      "rendering example_squares ''52'' = Some (''bp'', True)"
      "rendering example_squares ''28'' = None"
    by code_simp+
  from C3_rejected_move_restores [OF a] sq r computed show ?thesis
    by (auto simp del: setMoveInputState.simps run.simps)
qed

lemmas example_events =
  mouse_down_def mouse_move_def mouse_up_def mouse_up_outside_def mouse_up_nowhere_def
  touch_start_def touch_move_def touch_end_outside_def touch_end_nowhere_def

lemmas handler_defs =
  dispatch_def onPointerDown_def onPointerMove_def onPointerUp_def after_def getPiece_def
  Let_def beyond_threshold_def DRAG_THRESHOLD_def bind_result_def setPieceVisibility_def
  createDraggablePiece_def moveDraggablePiece_def

lemma at_rest_moveCanceledCallback [simp]:
  "at_rest (moveCanceledCallback r i s) = at_rest s"
  by (simp add: at_rest_def)

lemma reset_windowListeners:
  "setMoveInputState env reset params s = Inr s' \<Longrightarrow>
   windowListeners s' =
     (case pointerUpListener s of None \<Rightarrow> id | Some u \<Rightarrow> remove1 u)
       ((case pointerMoveListener s of None \<Rightarrow> id | Some m \<Rightarrow> remove1 m) (windowListeners s))"
  by (cases "pointerMoveListener s"; cases "pointerUpListener s")
     (auto simp: Let_def removePointerUpListener_def removePointerMoveListener_def)

lemma reset_detaches:
  assumes "setMoveInputState env reset params s = Inr s'"
    and "windowListeners s = own_listeners s"
  shows "windowListeners s' = []"
  using reset_windowListeners [OF assms(1)] assms(2)
  by (cases "pointerMoveListener s"; cases "pointerUpListener s") (simp_all add: own_listeners_def)

lemma onPointerUp_off_square:
  assumes "\<not> on_square e"
  shows "\<exists>s'. onPointerUp env e s = Inr s' \<and> at_rest s'"
proof -
  obtain r where r: "setMoveInputState env reset None (drawPiecesDebounced s) = Inr r" "at_rest r"
    using reset_returns [of env None "drawPiecesDebounced s"] by blast
  show ?thesis
  proof (cases "e_type e = mouseup \<or> e_type e = touchend")
    case False
    then show ?thesis using r
      by (simp add: onPointerUp_def del: setMoveInputState.simps)
  next
    case True
    then show ?thesis using r assms
      by (cases "e_target e")
         (simp_all add: onPointerUp_def on_square_def bind_result_def del: setMoveInputState.simps)
  qed
qed

lemma onPointerUp_second_click:
  assumes "on_square e" and "moveInputState s = secondClickThreshold"
  shows "\<exists>s'. onPointerUp env e s = Inr s' \<and> at_rest s'"
proof -
  obtain r where r: "setMoveInputState env reset None s = Inr r" "at_rest r"
    using reset_returns [of env None s] by blast
  from assms r show ?thesis
    by (cases "e_target e")
       (auto simp: onPointerUp_def on_square_def bind_result_def simp del: setMoveInputState.simps)
qed

lemma onPointerUp_clickDrag_on_start:
  assumes "on_square e" and "moveInputState s = clickDragTo"
    and "e_target e = Element b (startIndex s)"
    and "getPiece s (startIndex s) \<noteq> None"
  shows "\<exists>s'. onPointerUp env e s = Inr s' \<and> at_rest s'"
proof -
  from assms(4) obtain n v where nv: "getPiece s (startIndex s) = Some (n, v)" by auto
  let ?s1 = "(setPiece (startIndex s) (movedPiece s) s)
               \<lparr>piecesGroup := (piecesGroup s)(to_string (startIndex s) \<mapsto> (n, True))\<rparr>"
  have v: "setPieceVisibility (startIndex s) True (setPiece (startIndex s) (movedPiece s) s) = Inr ?s1"
    using nv by (simp add: setPieceVisibility_def getPiece_def)
  obtain r where r: "setMoveInputState env reset None ?s1 = Inr r" "at_rest r"
    using reset_returns [of env None ?s1] by blast
  from assms(1-3) v r show ?thesis
    by (auto simp: onPointerUp_def on_square_def bind_result_def simp del: setMoveInputState.simps)
qed
lemma after_simps [simp]:
  "after (Inr s) = s" "after (Inl (err, s)) = s"
  by (simp_all add: after_def)

lemma after_bind_result:
  "after (bind_result r f) = (case r of Inl (err, s) \<Rightarrow> s | Inr s \<Rightarrow> after (f s))"
  by (cases r) (auto simp: bind_result_def)

lemma at_rest_unset: "at_rest s \<Longrightarrow> endIndex_unset_early s"
  by (simp add: at_rest_def endIndex_unset_early_def)

lemma not_early_unset:
  "moveInputState s \<noteq> waitForInputStart \<Longrightarrow> moveInputState s \<noteq> pieceClickedThreshold
     \<Longrightarrow> endIndex_unset_early s"
  by (simp add: endIndex_unset_early_def)

lemma after_reset_at_rest: "at_rest (after (setMoveInputState env reset p s))"
  using reset_returns [of env p s] by (auto simp del: setMoveInputState.simps)

lemma after_enter_state:
  assumes "st = clickTo \<or> st = secondClickThreshold \<or> st = dragTo \<or> st = clickDragTo"
  shows "moveInputState (after (setMoveInputState env st p s)) = st"
proof -
  have v: "moveInputState (after (setPieceVisibility i b t)) = moveInputState t" for i b t
    by (simp add: setPieceVisibility_def split: option.splits prod.splits)
  have d: "moveInputState (after (bind_result (setPieceVisibility i False t) (createDraggablePiece n)))
             = moveInputState t" for i t n
    by (simp add: after_bind_result setPieceVisibility_def createDraggablePiece_def
          split: option.splits prod.splits sum.splits)
  from assms show ?thesis
    by (elim disjE) (simp_all add: Let_def v d split: option.splits)
qed

lemma after_moveDone:
  "moveInputState (after (setMoveInputState env moveDone p s)) = moveDone
   \<or> at_rest (after (setMoveInputState env moveDone p s))"
proof (cases "moveInputState s \<in> set [dragTo, clickTo, clickDragTo]")
  case False
  then show ?thesis by (simp add: Let_def)
next
  case legal: True
  show ?thesis
  proof (cases p)
    case None
    with legal show ?thesis by (auto simp: Let_def)
  next
    case (Some q)
    show ?thesis
    proof (cases "truthy (p_index q) \<and> moveDoneCallback env (startIndex s) (p_index q)")
      case False
      then show ?thesis
        using moveDone_rejected [OF legal, of q env] after_reset_at_rest Some
        by (auto simp del: setMoveInputState.simps)
    next
      case True
      then show ?thesis
        using moveDone_accepted [OF legal, of q env] after_reset_at_rest Some
        by (auto simp: Let_def simp del: setMoveInputState.simps)
    qed
  qed
qed

lemma after_pieceClickedThreshold:
  assumes "moveInputState s = waitForInputStart"
  shows "endIndex (after (setMoveInputState env pieceClickedThreshold (Some p) s)) = Null"
  using assms by (simp add: Let_def)
lemma unset_cong:
  "moveInputState t = moveInputState s \<Longrightarrow> endIndex t = endIndex s
     \<Longrightarrow> endIndex_unset_early t = endIndex_unset_early s"
  by (simp add: endIndex_unset_early_def)

lemma enter_unset:
  assumes "st = clickTo \<or> st = secondClickThreshold \<or> st = dragTo \<or> st = clickDragTo"
  shows "endIndex_unset_early (after (setMoveInputState env st p s))"
  using after_enter_state [OF assms, of env p s] assms
  by (intro not_early_unset) auto

lemma moveDone_unset: "endIndex_unset_early (after (setMoveInputState env moveDone p s))"
  using after_moveDone [of env p s] at_rest_unset not_early_unset
  by (metis STATE.distinct(11) STATE.distinct(23))

lemma reset_unset: "endIndex_unset_early (after (setMoveInputState env reset p s))"
  using after_reset_at_rest at_rest_unset by blast

lemma pieceClicked_unset:
  assumes "moveInputState s = waitForInputStart"
  shows "endIndex_unset_early (after (setMoveInputState env pieceClickedThreshold (Some p) s))"
  using after_pieceClickedThreshold [OF assms] by (simp add: endIndex_unset_early_def del: setMoveInputState.simps)

lemma moveDraggablePiece_state [simp]:
  "moveInputState (after (moveDraggablePiece xy t)) = moveInputState t"
  "endIndex (after (moveDraggablePiece xy t)) = endIndex t"
  by (simp_all add: moveDraggablePiece_def split: option.splits)

lemma onPointerDown_unset:
  assumes "endIndex_unset_early s"
  shows "endIndex_unset_early (after (onPointerDown env e s))"
  using assms pieceClicked_unset moveDone_unset enter_unset [of secondClickThreshold]
  by (simp add: onPointerDown_def Let_def del: setMoveInputState.simps)

lemma onPointerMove_unset:
  assumes "endIndex_unset_early s"
  shows "endIndex_unset_early (after (onPointerMove env e s))"
proof -
  have drag: "endIndex_unset_early
      (after (bind_result (setMoveInputState env st p s)
                (\<lambda>s'. if moveInputMode env = dragPiece then moveDraggablePiece xy s' else Inr s')))"
    if "st = dragTo \<or> st = clickDragTo" for st p xy
  proof (cases "setMoveInputState env st p s")
    case (Inl a)
    then show ?thesis
      using enter_unset [of st env p s] that by (cases a) (auto simp: bind_result_def)
  next
    case (Inr t)
    then have "moveInputState t = st"
      using after_enter_state [of st env p s] that by auto
    then show ?thesis
      using Inr that by (intro not_early_unset) (auto simp: bind_result_def)
  qed
  show ?thesis
  proof (cases "moveInputState s = pieceClickedThreshold \<or> moveInputState s = secondClickThreshold")
    case True
    then show ?thesis
      using assms drag
      by (auto simp: onPointerMove_def Let_def simp del: setMoveInputState.simps split: option.splits)
  next
    case False
    show ?thesis
    proof (cases "moveInputState s = dragTo \<or> moveInputState s = clickDragTo \<or> moveInputState s = clickTo")
      case True
      have "moveInputState (after (onPointerMove env e s)) = moveInputState s"
        using True False
        by (auto simp: onPointerMove_def Let_def split: target.splits bool.splits)
      then show ?thesis using True by (intro not_early_unset) auto
    next
      case False
      with \<open>\<not> (moveInputState s = pieceClickedThreshold \<or> moveInputState s = secondClickThreshold)\<close>
      show ?thesis using assms by (simp add: onPointerMove_def Let_def)
    qed
  qed
qed
lemma onPointerUp_unset:
  assumes "endIndex_unset_early s"
  shows "endIndex_unset_early (after (onPointerUp env e s))"
proof -
  have cancel: "endIndex_unset_early
      (after (bind_result (setMoveInputState env reset None t)
                (\<lambda>s'. Inr (moveCanceledCallback r i s'))))" for t r i
    using reset_returns [of env None t]
    by (auto simp: bind_result_def at_rest_unset simp del: setMoveInputState.simps)
  have restore: "endIndex_unset_early
      (after (bind_result (setPieceVisibility (startIndex s) True (setPiece (startIndex s) (movedPiece s) s))
                (setMoveInputState env reset None)))"
    if "moveInputState s = clickDragTo"
  proof (cases "setPieceVisibility (startIndex s) True (setPiece (startIndex s) (movedPiece s) s)")
    case (Inl a)
    then have "moveInputState (after (Inl a)) = clickDragTo"
      using that by (cases a) (auto simp: setPieceVisibility_def split: option.splits prod.splits)
    then show ?thesis using Inl by (intro not_early_unset) (auto simp: bind_result_def)
  next
    case (Inr t)
    then show ?thesis
      using reset_unset [of env None t] by (simp add: bind_result_def del: setMoveInputState.simps)
  qed
  show ?thesis
    using assms cancel restore reset_unset moveDone_unset enter_unset [of clickTo]
    by (auto simp: onPointerUp_def Let_def simp del: setMoveInputState.simps split: target.splits)
qed

lemma animationFinished_unset:
  assumes "endIndex_unset_early s"
  shows "endIndex_unset_early (after (animationFinished env s))"
proof -
  have "endIndex_unset_early (after (animation_completed env a t))"
    if "endIndex_unset_early t" for a t
  proof (cases "a_callback a")
    case ResetCallback
    then show ?thesis
      using reset_unset by (simp add: animation_completed_def run_callback_def Let_def
                              del: setMoveInputState.simps)
  next
    case NoCallback
    then show ?thesis
      using that by (simp add: animation_completed_def run_callback_def Let_def
                       endIndex_unset_early_def)
  next
    case (ExternalCallback n)
    then show ?thesis
      using that by (simp add: animation_completed_def run_callback_def Let_def
                       endIndex_unset_early_def)
  qed
  moreover have "endIndex_unset_early (s\<lparr>animationRunning := False\<rparr>)"
    using assms by (simp add: endIndex_unset_early_def)
  ultimately show ?thesis
    using assms by (simp add: animationFinished_def split: option.splits prod.splits)
qed

lemma dispatch_unset:
  assumes "endIndex_unset_early s"
  shows "endIndex_unset_early (after (dispatch env ev s))"
proof (cases ev)
  case (PointerDown e)
  then show ?thesis using assms onPointerDown_unset by (simp add: dispatch_def)
next
  case (PointerMove e)
  then show ?thesis using assms onPointerMove_unset by (simp add: dispatch_def)
next
  case (PointerUp e)
  then show ?thesis using assms onPointerUp_unset by (simp add: dispatch_def)
next
  case AnimationFinished
  then show ?thesis using assms animationFinished_unset by (simp add: dispatch_def)
next
  case DrawPiecesTimeout
  then show ?thesis using assms by (simp add: dispatch_def endIndex_unset_early_def)
next
  case (Animate f t cb)
  then show ?thesis using assms by (simp add: dispatch_def endIndex_unset_early_def)
qed

lemma run_unset:
  "endIndex_unset_early s \<Longrightarrow> endIndex_unset_early (run env evs s)"
  by (induction evs arbitrary: s) (simp_all add: dispatch_unset)

lemma initial_unset: "endIndex_unset_early (initial sq w b)"
  by (simp add: initial_def endIndex_unset_early_def)
text \<open>
  Claim C6, as the code has it. In every state the widget reaches from construction, by
  any sequence of pointer events, timers, animation completions and outside animation
  requests (a throwing handler leaving the state of the throw), endIndex is null or
  unassigned whenever the machine is in WaitForInputStart or PieceClickedThreshold.
  Nothing is claimed for SecondClickThreshold and MoveDone, where an end square can be
  held.
\<close>

theorem C6_endIndex_unset_before_first_release:
  "endIndex_unset_early (run env evs (initial sq w b))"
  by (rule run_unset) (rule initial_unset)

theorem C6_witness:
  "moveInputState (run example_env [mouse_down ''12''] example_initial) = pieceClickedThreshold
   \<and> (endIndex (run example_env [mouse_down ''12''] example_initial) = Null
        \<or> endIndex (run example_env [mouse_down ''12''] example_initial) = Undefined)"
proof -
  have st: "moveInputState (run example_env [mouse_down ''12''] example_initial) = pieceClickedThreshold"
    by (simp add: example_events handler_defs example_env_def piecesGroup_example_initial
          example_initial_fields)
  from C6_endIndex_unset_before_first_release [of example_env "[mouse_down ''12'']" example_squares True True]
  show ?thesis
    using st unfolding endIndex_unset_early_def example_initial_def by blast
qed

text \<open>
  Claim C6 as stated fails in two reachable states. After a click on the pawn of square
  12 and a press on square 28 that moveDoneCallback accepts, the machine waits in MoveDone
  for the animation and endIndex is 28. After the same click, a mouse move over square 28
  and a touch on square 12 (no mouse move precedes a touch), the machine is in
  SecondClickThreshold and endIndex is still 28.
\<close>

theorem C6_counterexample:
  "moveInputState (run example_env [mouse_down ''12'', mouse_up ''12'', mouse_down ''28'']
                     example_initial) = moveDone
   \<and> endIndex (run example_env [mouse_down ''12'', mouse_up ''12'', mouse_down ''28'']
                     example_initial) = Str ''28''
   \<and> moveInputState (run example_env [mouse_down ''12'', mouse_up ''12'',
                                        mouse_move ''28'' (300, 100), touch_start ''12'']
                     example_initial) = secondClickThreshold
   \<and> endIndex (run example_env [mouse_down ''12'', mouse_up ''12'',
                                  mouse_move ''28'' (300, 100), touch_start ''12'']
                     example_initial) = Str ''28''"
  by (simp add: example_events handler_defs example_env_def piecesGroup_example_initial
        example_initial_fields animatePieces_def nextPieceAnimationInQueue_def)

lemma squares_after_setPieceVisibility [simp]:
  "squares (after (setPieceVisibility i b t)) = squares t"
  by (simp add: setPieceVisibility_def split: option.splits prod.splits)

lemma squares_after_moveDraggablePiece [simp]:
  "squares (after (moveDraggablePiece xy t)) = squares t"
  by (simp add: moveDraggablePiece_def split: option.splits)

lemma squares_after_enter:
  assumes "st \<noteq> moveDone" and "st \<noteq> reset"
  shows "squares (after (setMoveInputState env st p s)) = squares s"
proof -
  have d: "squares (after (bind_result (setPieceVisibility i False t) (createDraggablePiece n)))
             = squares t" for i t n
    by (simp add: after_bind_result setPieceVisibility_def createDraggablePiece_def
          split: option.splits prod.splits sum.splits)
  from assms show ?thesis
    by (cases st) (simp_all add: Let_def d split: option.splits)
qed

lemma squares_after_reset:
  "squares (after (setMoveInputState env reset p s)) = squares s
   \<or> squares (after (setMoveInputState env reset p s)) = restored s"
  using reset_returns [of env p s]
  by (auto simp: restored_def simp del: setMoveInputState.simps)

lemma squares_after_moveDone:
  assumes "\<not> (truthy (p_index q) \<and> moveDoneCallback env (startIndex s) (p_index q))"
  shows "squares (after (setMoveInputState env moveDone (Some q) s)) = squares s
   \<or> squares (after (setMoveInputState env moveDone (Some q) s)) = restored s"
proof (cases "moveInputState s \<in> set [dragTo, clickTo, clickDragTo]")
  case False
  then show ?thesis by (simp add: Let_def)
next
  case True
  let ?s1 = "drawPiecesDebounced (s\<lparr>moveInputState := moveDone, endIndex := p_index q\<rparr>)"
  have "squares (after (setMoveInputState env reset None ?s1)) = squares ?s1
   \<or> squares (after (setMoveInputState env reset None ?s1)) = restored ?s1"
    by (rule squares_after_reset)
  then show ?thesis
    using moveDone_rejected [OF True assms]
    by (simp add: restored_def del: setMoveInputState.simps)
qed
lemma onPointerDown_squares:
  assumes "\<not> (d_type e = mousedown \<and> d_button e = 0 \<or> d_type e = touchstart) \<or>
           \<not> (moveInputState s = clickTo \<and> d_index e \<noteq> startIndex s \<and> truthy (d_index e) \<and>
              moveDoneCallback env (startIndex s) (d_index e))"
  shows "squares (after (onPointerDown env e s)) = squares s
         \<or> squares (after (onPointerDown env e s)) = restored s"
proof -
  let ?q = "\<lparr>p_index = d_index e, p_piece = Undefined, p_point = None, p_type = None\<rparr>"
  have enter: "squares (after (setMoveInputState env pieceClickedThreshold p s)) = squares s"
      "squares (after (setMoveInputState env secondClickThreshold p s)) = squares s" for p
    by (simp_all add: squares_after_enter del: setMoveInputState.simps)
  have mdone: "squares (after (setMoveInputState env moveDone (Some ?q) s)) = squares s
      \<or> squares (after (setMoveInputState env moveDone (Some ?q) s)) = restored s"
    if "\<not> (truthy (d_index e) \<and> moveDoneCallback env (startIndex s) (d_index e))"
    using squares_after_moveDone [of ?q env s] that by simp
  show ?thesis
    using assms enter mdone
    by (auto simp: onPointerDown_def Let_def simp del: setMoveInputState.simps)
qed

lemma onPointerMove_squares:
  "squares (after (onPointerMove env e s)) = squares s"
proof -
  have drag: "squares (after (bind_result (setMoveInputState env st p s)
                (\<lambda>s'. if moveInputMode env = dragPiece then moveDraggablePiece xy s' else Inr s')))
              = squares s"
    if "st = dragTo \<or> st = clickDragTo" for st p xy
  proof (cases "setMoveInputState env st p s")
    case (Inl a)
    then show ?thesis
      using squares_after_enter [of st env p s] that by (cases a) (auto simp: bind_result_def)
  next
    case (Inr t)
    then have "squares t = squares s"
      using squares_after_enter [of st env p s] that by auto
    then show ?thesis
      using Inr by (auto simp: bind_result_def)
  qed
  show ?thesis
    using drag
    by (auto simp: onPointerMove_def Let_def simp del: setMoveInputState.simps
          split: option.splits target.splits bool.splits)
qed
lemma restored_idem:
  "squares t = restored s \<Longrightarrow> startIndex t = startIndex s \<Longrightarrow> movedPiece t = movedPiece s
     \<Longrightarrow> restored t = restored s"
  by (simp add: restored_def)

lemma onPointerUp_squares:
  assumes "\<not> ((e_type e = mouseup \<or> e_type e = touchend) \<and>
              (moveInputState s = dragTo \<or> moveInputState s = clickDragTo) \<and>
              (case e_target e of
                 Element b index \<Rightarrow>
                   index \<noteq> startIndex s \<and> truthy index \<and> moveDoneCallback env (startIndex s) index
               | _ \<Rightarrow> False))"
  shows "squares (after (onPointerUp env e s)) = squares s
         \<or> squares (after (onPointerUp env e s)) = restored s"
proof -
  have cancel: "squares (after (bind_result (setMoveInputState env reset None t)
                  (\<lambda>s'. Inr (moveCanceledCallback r i s'))))
                = squares (after (setMoveInputState env reset None t))" for t r i
    using reset_returns [of env None t]
    by (auto simp: bind_result_def simp del: setMoveInputState.simps)
  have rs: "squares (after (setMoveInputState env reset None (drawPiecesDebounced s))) = squares s
      \<or> squares (after (setMoveInputState env reset None (drawPiecesDebounced s))) = restored s"
    using squares_after_reset [of env None "drawPiecesDebounced s"] by (simp add: restored_def)
  have restore: "squares (after (bind_result
        (setPieceVisibility (startIndex s) True (setPiece (startIndex s) (movedPiece s) s))
        (setMoveInputState env reset None))) = restored s"
  proof (cases "setPieceVisibility (startIndex s) True (setPiece (startIndex s) (movedPiece s) s)")
    case (Inl a)
    then have "squares (after (Inl a)) = restored s"
      by (cases a) (auto simp: setPieceVisibility_def restored_def split: option.splits prod.splits)
    then show ?thesis using Inl by (auto simp: bind_result_def)
  next
    case (Inr t)
    then have t: "squares t = restored s" "startIndex t = startIndex s" "movedPiece t = movedPiece s"
      by (auto simp: setPieceVisibility_def restored_def split: option.splits prod.splits)
    then show ?thesis
      using squares_after_reset [of env None t] restored_idem [OF t] Inr
      by (auto simp: bind_result_def simp del: setMoveInputState.simps)
  qed
  have enter: "squares (after (setMoveInputState env clickTo p s)) = squares s" for p
    by (simp add: squares_after_enter del: setMoveInputState.simps)
  have mdone: "squares (after (setMoveInputState env moveDone
                  (Some \<lparr>p_index = i, p_piece = Undefined, p_point = None, p_type = None\<rparr>) s)) = squares s
      \<or> squares (after (setMoveInputState env moveDone
                  (Some \<lparr>p_index = i, p_piece = Undefined, p_point = None, p_type = None\<rparr>) s)) = restored s"
    if "\<not> (truthy i \<and> moveDoneCallback env (startIndex s) i)" for i
    using squares_after_moveDone
            [of "\<lparr>p_index = i, p_piece = Undefined, p_point = None, p_type = None\<rparr>" env s] that
    by simp
  show ?thesis
  proof (cases "e_type e = mouseup \<or> e_type e = touchend")
    case False
    then show ?thesis
      using squares_after_reset [of env None "drawPiecesDebounced s"]
      by (simp add: onPointerUp_def restored_def del: setMoveInputState.simps)
  next
    case True
    show ?thesis
    proof (cases "e_target e")
      case NoTarget
      then show ?thesis using True rs by (simp add: onPointerUp_def del: setMoveInputState.simps)
    next
      case NonElement
      then show ?thesis using True rs by (simp add: onPointerUp_def del: setMoveInputState.simps)
    next
      case (Element b i)
      show ?thesis
      proof (cases "truthy i")
        case False
        then show ?thesis
          using True Element rs cancel
          by (simp add: onPointerUp_def del: setMoveInputState.simps)
      next
        case ti: True
        have sc: "squares (after (bind_result (setMoveInputState env reset None s)
                  (\<lambda>s'. Inr (moveCanceledCallback secondClick i s')))) = squares s
            \<or> squares (after (bind_result (setMoveInputState env reset None s)
                  (\<lambda>s'. Inr (moveCanceledCallback secondClick i s')))) = restored s"
          using cancel [of s secondClick i] squares_after_reset [of env None s] by simp
        show ?thesis
        proof (cases "moveInputState s = dragTo \<or> moveInputState s = clickDragTo")
          case drag: True
          show ?thesis
          proof (cases "startIndex s = i")
            case True
            then show ?thesis
              using \<open>e_type e = mouseup \<or> e_type e = touchend\<close> Element ti drag restore enter
              by (auto simp: onPointerUp_def simp del: setMoveInputState.simps)
          next
            case False
            then have "\<not> (truthy i \<and> moveDoneCallback env (startIndex s) i)"
              using assms \<open>e_type e = mouseup \<or> e_type e = touchend\<close> Element ti drag by auto
            from mdone [OF this] show ?thesis
              using \<open>e_type e = mouseup \<or> e_type e = touchend\<close> Element ti drag False
              by (auto simp: onPointerUp_def simp del: setMoveInputState.simps)
          qed
        next
          case False
          then show ?thesis
            using True Element ti enter sc
            by (auto simp: onPointerUp_def simp del: setMoveInputState.simps)
        qed
      qed
    qed
  qed
qed
lemma animationFinished_squares:
  "squares (after (animationFinished env s)) = squares s
   \<or> squares (after (animationFinished env s)) = restored s"
proof -
  have "squares (after (animation_completed env a t)) = squares t
        \<or> squares (after (animation_completed env a t)) = restored t" for a t
  proof (cases "a_callback a")
    case ResetCallback
    let ?t2 = "nextPieceAnimationInQueue env
                 (if draggablePiece t = None then drawPieces (toSquares a) t else t)"
    have "squares ?t2 = squares t" "restored ?t2 = restored t"
      by (simp_all add: restored_def)
    then show ?thesis
      using squares_after_reset [of env None ?t2] ResetCallback
      by (simp add: animation_completed_def run_callback_def Let_def del: setMoveInputState.simps)
  next
    case NoCallback
    then show ?thesis by (simp add: animation_completed_def run_callback_def Let_def)
  next
    case (ExternalCallback n)
    then show ?thesis by (simp add: animation_completed_def run_callback_def Let_def)
  qed
  from this [of _ "s\<lparr>animationRunning := False\<rparr>"] show ?thesis
    by (auto simp: animationFinished_def restored_def split: option.splits prod.splits)
qed

lemma dispatch_squares:
  assumes "\<not> accepting env ev s"
  shows "squares (after (dispatch env ev s)) = squares s
         \<or> squares (after (dispatch env ev s)) = restored s"
proof (cases ev)
  case (PointerDown e)
  then show ?thesis
    using assms onPointerDown_squares [of e s env]
    by (auto simp: dispatch_def accepting_def)
next
  case (PointerMove e)
  then show ?thesis by (simp add: dispatch_def onPointerMove_squares)
next
  case (PointerUp e)
  then show ?thesis
    using assms onPointerUp_squares [of e s env]
    by (auto simp: dispatch_def accepting_def)
next
  case AnimationFinished
  then show ?thesis using animationFinished_squares by (simp add: dispatch_def)
next
  case DrawPiecesTimeout
  then show ?thesis by (simp add: dispatch_def)
next
  case (Animate f t cb)
  then show ?thesis by (simp add: dispatch_def)
qed

text \<open>
  Claim C8, as the code has it. Handling any event other than one that enters MoveDone
  with an accepting moveDoneCallback leaves the placement as it was or writes movedPiece
  back on the slot of startIndex (Reset without an end square, and the release on the
  start square in ClickDragTo, do that) and changes no other slot; so the placement is
  unchanged as a value whenever the slot of startIndex already holds movedPiece.
\<close>

theorem C8_placement_changes_only_on_acceptance:
  assumes "\<not> accepting env ev s"
  shows "(squares (after (dispatch env ev s)) = squares s
          \<or> squares (after (dispatch env ev s)) = (squares s)(to_string (startIndex s) := movedPiece s))
       \<and> (squares s (to_string (startIndex s)) = movedPiece s
            \<longrightarrow> squares (after (dispatch env ev s)) = squares s)"
proof -
  have "(squares s)(to_string (startIndex s) := movedPiece s) = squares s"
    if "squares s (to_string (startIndex s)) = movedPiece s"
    using that by auto
  then show ?thesis
    using dispatch_squares [OF assms] by (auto simp: restored_def)
qed

theorem C8_witness:
  "squares (after (dispatch example_env mouse_up_outside example_dragTo)) = example_squares"
proof -
  have a: "\<not> accepting example_env mouse_up_outside example_dragTo"
    by (simp add: accepting_def mouse_up_outside_def)
  have b: "squares example_dragTo (to_string (startIndex example_dragTo)) = movedPiece example_dragTo"
       "squares example_dragTo = example_squares"
    by (simp_all add: example_dragTo_def example_initial_fields example_squares_def)
  from C8_placement_changes_only_on_acceptance [OF a] b show ?thesis
    by simp
qed
lemma index_string_28: "''28'' \<in> index_string ` {0..<64}"
  by (rule image_eqI [where x = 28]) (simp_all add: index_string_def digit_char_def)

lemma two_quick_moves_state:
  "moveInputState (run example_env two_quick_moves example_initial) = waitForInputStart"
  "squares (run example_env two_quick_moves example_initial) ''28'' = Null"
  "squares (run example_env two_quick_moves example_initial) ''36'' = Str ''wp''"
  "piecesGroup (run example_env two_quick_moves example_initial) ''28'' = Some (''wp'', True)"
  "pointerMoveListener (run example_env two_quick_moves example_initial) = None"
  "pointerUpListener (run example_env two_quick_moves example_initial) = None"
  "inputWhiteEnabled (run example_env two_quick_moves example_initial)"
  by (simp_all add: two_quick_moves_def example_events handler_defs example_env_def
        piecesGroup_example_initial example_initial_fields animatePieces_def
        nextPieceAnimationInQueue_def new_ChessboardPiecesAnimation_def drawPiecesTimeout_def
        animationFinished_def animation_completed_def run_callback_def
        drawPieces_loop_lookup index_string_28 example_squares_def)
text \<open>
  Claim C8 as stated fails. After the two quick moves the first animation has completed
  and drawn its own target, where the pawn stands on 28, and its callback has reset the
  machine; the placement already has the pawn on 36 and square 28 empty. A press on the
  pawn element of square 28 starts a gesture with that piece name, and releasing it off
  the board, which is no accepted move, resets the machine and writes the pawn into the
  placement at 28.
\<close>

theorem C8_counterexample:
  "\<not> accepting example_env mouse_up_outside
        (run example_env (two_quick_moves @ [mouse_down ''28'']) example_initial)
   \<and> squares (run example_env (two_quick_moves @ [mouse_down ''28'']) example_initial) ''28'' = Null
   \<and> squares (run example_env (two_quick_moves @ [mouse_down ''28'', mouse_up_outside])
                 example_initial) ''28'' = Str ''wp''
   \<and> squares (run example_env (two_quick_moves @ [mouse_down ''28'', mouse_up_outside])
                 example_initial) ''36'' = Str ''wp''"
  by (simp add: two_quick_moves_def example_events handler_defs example_env_def
        piecesGroup_example_initial example_initial_fields animatePieces_def
        nextPieceAnimationInQueue_def new_ChessboardPiecesAnimation_def drawPiecesTimeout_def
        animationFinished_def animation_completed_def run_callback_def
        drawPieces_loop_lookup index_string_28 example_squares_def accepting_def)

lemma anim_view_frames [simp]:
  "anim_view (setPiece i p s) = anim_view s"
  "anim_view (drawPieces sq s) = anim_view s"
  "anim_view (drawPiecesDebounced s) = anim_view s"
  "anim_view (drawPiecesTimeout s) = anim_view s"
  "anim_view (updateStartEndMarkers s) = anim_view s"
  "anim_view (removeDraggablePiece s) = anim_view s"
  "anim_view (removePointerMoveListener s) = anim_view s"
  "anim_view (removePointerUpListener s) = anim_view s"
  "anim_view (addPointerListeners m u s) = anim_view s"
  "anim_view (moveCanceledCallback r i s) = anim_view s"
  "anim_view (after (setPieceVisibility i b s)) = anim_view s"
  "anim_view (after (moveDraggablePiece xy s)) = anim_view s"
  "anim_view (after (createDraggablePiece n s)) = anim_view s"
  by (simp_all add: anim_view_def setPieceVisibility_def moveDraggablePiece_def
        createDraggablePiece_def split: option.splits prod.splits)

lemma anim_view_record [simp]:
  "anim_view (s\<lparr>moveInputState := a\<rparr>) = anim_view s"
  "anim_view (s\<lparr>startIndex := i\<rparr>) = anim_view s"
  "anim_view (s\<lparr>endIndex := i\<rparr>) = anim_view s"
  "anim_view (s\<lparr>movedPiece := i\<rparr>) = anim_view s"
  "anim_view (s\<lparr>startPoint := pt\<rparr>) = anim_view s"
  "anim_view (s\<lparr>externalCalls := x\<rparr>) = anim_view s"
  by (simp_all add: anim_view_def)

lemma anim_view_after_bind:
  assumes "\<And>t. anim_view (after (f t)) = anim_view t"
  shows "anim_view (after (bind_result r f)) = anim_view (after r)"
  using assms by (cases r) (auto simp: bind_result_def)

lemma anim_view_after_reset [simp]:
  "anim_view (after (setMoveInputState env reset p s)) = anim_view s"
  unfolding reset_eq by simp

lemma anim_view_after_enter:
  assumes "st \<noteq> moveDone"
  shows "anim_view (after (setMoveInputState env st p s)) = anim_view s"
proof (cases "st = reset")
  case True
  then show ?thesis by (simp del: setMoveInputState.simps)
next
  case False
  have d: "anim_view (after (bind_result (setPieceVisibility i False t) (createDraggablePiece n)))
             = anim_view t" for i t n
    by (simp add: anim_view_after_bind)
  from assms False show ?thesis
    by (cases st) (simp_all add: Let_def d split: option.splits)
qed

lemma anim_view_after_moveDone:
  "anim_view (after (setMoveInputState env moveDone p s)) =
     (case p of
        Some q \<Rightarrow>
          if moveInputState s = clickTo \<and> truthy (p_index q) \<and>
             moveDoneCallback env (startIndex s) (p_index q)
          then anim_view (animatePieces env (squares s)
                 ((squares s)(to_string (startIndex s) := Null, to_string (p_index q) := movedPiece s))
                 ResetCallback s)
          else anim_view s
      | None \<Rightarrow> anim_view s)"
proof (cases "moveInputState s \<in> set [dragTo, clickTo, clickDragTo]")
  case False
  then show ?thesis by (auto simp: Let_def split: option.splits)
next
  case legal: True
  show ?thesis
  proof (cases p)
    case None
    with legal show ?thesis by (auto simp: Let_def)
  next
    case (Some q)
    show ?thesis
    proof (cases "truthy (p_index q) \<and> moveDoneCallback env (startIndex s) (p_index q)")
      case False
      then show ?thesis
        using moveDone_rejected [OF legal, of q env] Some
        by (auto simp del: setMoveInputState.simps)
    next
      case True
      have v: "anim_view (animatePieces env f t cb a) = anim_view (animatePieces env f t cb b)"
        if "anim_view a = anim_view b" for f t cb a b
        using that
        by (auto simp: anim_view_def animatePieces_def nextPieceAnimationInQueue_def
              new_ChessboardPiecesAnimation_def Let_def split: list.splits)
      show ?thesis
        using True moveDone_accepted [OF legal, of q env] Some
        by (auto simp: Let_def intro!: v simp del: setMoveInputState.simps)
    qed
  qed
qed
lemma onPointerDown_anim_view:
  "anim_view (after (onPointerDown env e s)) =
     (if (d_type e = mousedown \<and> d_button e = 0 \<or> d_type e = touchstart) \<and>
         moveInputState s = clickTo \<and> d_index e \<noteq> startIndex s \<and> truthy (d_index e) \<and>
         moveDoneCallback env (startIndex s) (d_index e)
      then anim_view (animatePieces env (squares s)
             ((squares s)(to_string (startIndex s) := Null, to_string (d_index e) := movedPiece s))
             ResetCallback s)
      else anim_view s)"
proof -
  have enter: "anim_view (after (setMoveInputState env pieceClickedThreshold p s)) = anim_view s"
      "anim_view (after (setMoveInputState env secondClickThreshold p s)) = anim_view s" for p
    by (simp_all add: anim_view_after_enter del: setMoveInputState.simps)
  have und: "d_index e \<noteq> Undefined" if "truthy (d_index e)"
    using that by auto
  show ?thesis
    using enter und
    by (auto simp: onPointerDown_def Let_def anim_view_after_moveDone
          simp del: setMoveInputState.simps)
qed

lemma onPointerMove_anim_view:
  "anim_view (after (onPointerMove env e s)) = anim_view s"
proof -
  have drag: "anim_view (after (bind_result (setMoveInputState env st p s)
                (\<lambda>s'. if moveInputMode env = dragPiece then moveDraggablePiece xy s' else Inr s')))
              = anim_view s"
    if "st = dragTo \<or> st = clickDragTo" for st p xy
  proof -
    have "anim_view (after (bind_result (setMoveInputState env st p s)
                (\<lambda>s'. if moveInputMode env = dragPiece then moveDraggablePiece xy s' else Inr s')))
          = anim_view (after (setMoveInputState env st p s))"
      by (rule anim_view_after_bind) simp
    then show ?thesis
      using anim_view_after_enter [of st env p s] that by auto
  qed
  show ?thesis
    using drag
    by (auto simp: onPointerMove_def Let_def simp del: setMoveInputState.simps
          split: option.splits target.splits bool.splits)
qed

lemma onPointerUp_anim_view:
  "anim_view (after (onPointerUp env e s)) = anim_view s"
proof -
  have cancel: "anim_view (after (bind_result (setMoveInputState env reset None t)
                  (\<lambda>s'. Inr (moveCanceledCallback r i s')))) = anim_view t" for t r i
    using anim_view_after_bind [of "\<lambda>s'. Inr (moveCanceledCallback r i s')"
            "setMoveInputState env reset None t"]
    by (simp del: setMoveInputState.simps)
  have restore: "anim_view (after (bind_result
        (setPieceVisibility (startIndex s) True (setPiece (startIndex s) (movedPiece s) s))
        (setMoveInputState env reset None))) = anim_view s"
    using anim_view_after_bind [of "setMoveInputState env reset None"
            "setPieceVisibility (startIndex s) True (setPiece (startIndex s) (movedPiece s) s)"]
    by (simp del: setMoveInputState.simps)
  have enter: "anim_view (after (setMoveInputState env clickTo p s)) = anim_view s" for p
    by (simp add: anim_view_after_enter del: setMoveInputState.simps)
  have mdone: "anim_view (after (setMoveInputState env moveDone (Some q) s)) = anim_view s"
    if "moveInputState s \<noteq> clickTo" for q
    using that by (simp add: anim_view_after_moveDone del: setMoveInputState.simps)
  show ?thesis
    using cancel restore enter mdone
    by (auto simp: onPointerUp_def Let_def simp del: setMoveInputState.simps split: target.splits)
qed

lemma animationFinished_anim_view:
  "anim_view (after (animationFinished env s)) =
     (if animationRunning s \<and> currentAnimation s \<noteq> None
      then anim_view (nextPieceAnimationInQueue env (s\<lparr>animationRunning := False\<rparr>))
      else anim_view s)"
proof -
  have n: "anim_view (nextPieceAnimationInQueue env a) = anim_view (nextPieceAnimationInQueue env b)"
    if "anim_view a = anim_view b" for a b
    using that
    by (auto simp: anim_view_def nextPieceAnimationInQueue_def new_ChessboardPiecesAnimation_def
          Let_def split: list.splits)
  have c: "anim_view (after (animation_completed env a t)) = anim_view (nextPieceAnimationInQueue env t)"
    for a t
    by (cases "a_callback a")
       (auto simp: animation_completed_def run_callback_def Let_def intro!: n
          simp del: setMoveInputState.simps)
  show ?thesis
    by (auto simp: animationFinished_def c split: option.splits prod.splits)
qed
lemma dispatch_anim_view:
  "anim_view (after (dispatch env ev s)) =
     (if ev = AnimationFinished then
        (if animationRunning s \<and> currentAnimation s \<noteq> None
         then anim_view (nextPieceAnimationInQueue env (s\<lparr>animationRunning := False\<rparr>))
         else anim_view s)
      else case requested env ev s of
        [] \<Rightarrow> anim_view s
      | a # _ \<Rightarrow> anim_view (animatePieces env (fromSquares a) (toSquares a) (a_callback a) s))"
proof (cases ev)
  case (PointerDown e)
  then show ?thesis
    by (auto simp: dispatch_def requested_def accepting_def onPointerDown_anim_view)
next
  case (PointerMove e)
  then show ?thesis by (simp add: dispatch_def requested_def onPointerMove_anim_view)
next
  case (PointerUp e)
  then show ?thesis by (simp add: dispatch_def requested_def onPointerUp_anim_view)
next
  case AnimationFinished
  then show ?thesis by (simp add: dispatch_def animationFinished_anim_view)
next
  case DrawPiecesTimeout
  then show ?thesis by (simp add: dispatch_def requested_def)
next
  case (Animate f t cb)
  then show ?thesis by (simp add: dispatch_def requested_def)
qed

lemma requested_at_most_one:
  "requested env ev s = [] \<or> (\<exists>a. requested env ev s = [a])"
  by (cases ev) (simp_all add: requested_def)

lemma requested_AnimationFinished [simp]: "requested env AnimationFinished s = []"
  by (simp add: requested_def)

lemma view_fields:
  "startedAnimations s = fst (anim_view s)"
  "animationQueue s = fst (snd (anim_view s))"
  "animationRunning s = fst (snd (snd (anim_view s)))"
  "currentAnimation s = snd (snd (snd (anim_view s)))"
  by (simp_all add: anim_view_def)

lemma animatePieces_view:
  "anim_view (animatePieces env f t cb s) =
     (let a = \<lparr>fromSquares = f, toSquares = t, a_callback = cb\<rparr> in
      if animationRunning s
      then (startedAnimations s, animationQueue s @ [a], True, currentAnimation s)
      else (case animationQueue s @ [a] of
              h # rest \<Rightarrow>
                (startedAnimations s @ [(h, number_div env (animationDuration env) (of_nat (length rest) + 1))],
                 rest, True, Some (h, number_div env (animationDuration env) (of_nat (length rest) + 1)))
            | [] \<Rightarrow> anim_view s))"
  by (cases "animationQueue s")
     (simp_all add: anim_view_def animatePieces_def nextPieceAnimationInQueue_def
        new_ChessboardPiecesAnimation_def Let_def)

lemma finished_view:
  "anim_view (nextPieceAnimationInQueue env (s\<lparr>animationRunning := False\<rparr>)) =
     (case animationQueue s of
        h # rest \<Rightarrow>
          (startedAnimations s @ [(h, number_div env (animationDuration env) (of_nat (length rest) + 1))],
           rest, True, Some (h, number_div env (animationDuration env) (of_nat (length rest) + 1)))
      | [] \<Rightarrow> (startedAnimations s, [], False, currentAnimation s))"
  by (cases "animationQueue s")
     (simp_all add: anim_view_def nextPieceAnimationInQueue_def
        new_ChessboardPiecesAnimation_def Let_def)

lemma step_view:
  "anim_view (after (dispatch env ev s)) =
     (if ev = AnimationFinished then
        (if animationRunning s \<and> currentAnimation s \<noteq> None
         then (case animationQueue s of
                 h # rest \<Rightarrow>
                   (startedAnimations s @ [(h, number_div env (animationDuration env) (of_nat (length rest) + 1))],
                    rest, True, Some (h, number_div env (animationDuration env) (of_nat (length rest) + 1)))
               | [] \<Rightarrow> (startedAnimations s, [], False, currentAnimation s))
         else anim_view s)
      else case requested env ev s of
        [] \<Rightarrow> anim_view s
      | a # _ \<Rightarrow>
          if animationRunning s
          then (startedAnimations s, animationQueue s @ [a], True, currentAnimation s)
          else (case animationQueue s @ [a] of
                  h # rest \<Rightarrow>
                    (startedAnimations s @ [(h, number_div env (animationDuration env) (of_nat (length rest) + 1))],
                     rest, True, Some (h, number_div env (animationDuration env) (of_nat (length rest) + 1)))
                | [] \<Rightarrow> anim_view s))"
  unfolding dispatch_anim_view
  by (auto simp: animatePieces_view finished_view Let_def split: list.splits)

lemma step_duration:
  "startedAnimations (after (dispatch env ev s)) = startedAnimations s
   \<or> (\<exists>a. startedAnimations (after (dispatch env ev s))
            = startedAnimations s
                @ [(a, number_div env (animationDuration env)
                           (of_nat (length (animationQueue (after (dispatch env ev s)))) + 1))]
          \<and> currentAnimation (after (dispatch env ev s))
              = Some (a, number_div env (animationDuration env)
                           (of_nat (length (animationQueue (after (dispatch env ev s)))) + 1))
          \<and> animationRunning (after (dispatch env ev s)))"
  using step_view [of env ev s] requested_at_most_one [of env ev s]
  by (auto simp: anim_view_def split: if_splits list.splits)

lemma step_pipeline:
  "pipeline (after (dispatch env ev s)) = pipeline s @ requested env ev s"
  using step_view [of env ev s] requested_at_most_one [of env ev s]
  by (auto simp: anim_view_def pipeline_def split: if_splits list.splits)

lemma step_no_preemption:
  "animationRunning s \<Longrightarrow> ev \<noteq> AnimationFinished \<Longrightarrow>
   startedAnimations (after (dispatch env ev s)) = startedAnimations s"
  using step_view [of env ev s] requested_at_most_one [of env ev s]
  by (auto simp: anim_view_def split: if_splits list.splits)

lemma step_queue_inv:
  "queue_inv s \<Longrightarrow> queue_inv (after (dispatch env ev s))"
  using step_view [of env ev s] requested_at_most_one [of env ev s]
  by (auto simp: anim_view_def queue_inv_def split: if_splits list.splits)

lemma run_queue_inv: "queue_inv s \<Longrightarrow> queue_inv (run env evs s)"
  by (induction evs arbitrary: s) (simp_all add: step_queue_inv)

lemma run_pipeline: "pipeline (run env evs s) = pipeline s @ requests env evs s"
  by (induction evs arbitrary: s) (simp_all add: step_pipeline)

lemma initial_queue: "queue_inv (initial sq w b)" "pipeline (initial sq w b) = []"
  by (simp_all add: queue_inv_def pipeline_def initial_def)
lemma finish_last_renders:
  assumes "queue_inv s" and "animationRunning s" and "animationQueue s = []"
    and "draggablePiece s = None"
  shows "piecesGroup (after (animationFinished env s))
           = drawPieces_loop (toSquares (last (pipeline s))) [0..<64] Map.empty"
    and "\<not> animationRunning (after (animationFinished env s))"
    and "animationQueue (after (animationFinished env s)) = []"
proof -
  from assms(1,2) obtain a d where cur: "currentAnimation s = Some (a, d)"
      and lst: "last (startedAnimations s) = (a, d)" and ne: "startedAnimations s \<noteq> []"
    by (cases "last (startedAnimations s)") (auto simp: queue_inv_def)
  have a: "last (pipeline s) = a"
    using lst ne assms(3) by (simp add: pipeline_def last_map)
  let ?t = "nextPieceAnimationInQueue env (drawPieces (toSquares a) (s\<lparr>animationRunning := False\<rparr>))"
  have t: "piecesGroup ?t = drawPieces_loop (toSquares a) [0..<64] Map.empty"
      "animationRunning ?t = False" "animationQueue ?t = []"
    using assms(3) by (simp_all add: nextPieceAnimationInQueue_def)
  have fin: "animationFinished env s = run_callback env (a_callback a) ?t"
    using cur assms(2,4) by (simp add: animationFinished_def animation_completed_def Let_def)
  have cb: "piecesGroup (after (run_callback env c u)) = piecesGroup u
      \<and> animationRunning (after (run_callback env c u)) = animationRunning u
      \<and> animationQueue (after (run_callback env c u)) = animationQueue u" for c u
    using reset_returns [of env None u]
    by (cases c) (auto simp: run_callback_def simp del: setMoveInputState.simps)
  show "piecesGroup (after (animationFinished env s))
           = drawPieces_loop (toSquares (last (pipeline s))) [0..<64] Map.empty"
    and "\<not> animationRunning (after (animationFinished env s))"
    and "animationQueue (after (animationFinished env s)) = []"
    using fin cb [of "a_callback a" ?t] t a by simp_all
qed

lemma finished_with_proxy:
  assumes "draggablePiece s \<noteq> None"
  shows "piecesGroup (after (dispatch env AnimationFinished s)) = piecesGroup s"
proof -
  have cb: "piecesGroup (after (run_callback env c u)) = piecesGroup u" for c u
    using reset_returns [of env None u]
    by (cases c) (auto simp: run_callback_def simp del: setMoveInputState.simps)
  have "piecesGroup (after (animation_completed env a t)) = piecesGroup t"
    if "draggablePiece t \<noteq> None" for a t
    using that by (auto simp: animation_completed_def Let_def cb)
  from this [of "s\<lparr>animationRunning := False\<rparr>"] assms show ?thesis
    by (auto simp: dispatch_def animationFinished_def split: option.splits prod.splits)
qed

text \<open>
  Claim C4, as the code has it. Let \<open>s\<close> be any state the widget reaches from
  construction and \<open>s'\<close> the state after one more event. An event starts at most one
  animation, and the duration of that animation is the base duration divided by the
  length of the queue it has just left plus one. The animations started so far, in the
  order of their start, followed by the queue, are the animations requested so far in the
  order of the requests (first in, first out). While an animation runs, it is the one
  started last, and no event other than its completion starts another; nothing waits in
  the queue unless an animation runs. When the animation that runs with an empty queue
  completes and no draggable piece is present, the view holds exactly the visible piece
  elements of the target snapshot of the animation requested last, and the queue is idle.
  While a draggable piece is present, the completion of an animation draws nothing.
\<close>

theorem C4_queue_is_fifo_and_compresses:
  assumes "s = run env evs (initial sq w b)" and "s' = after (dispatch env ev s)"
  shows "(startedAnimations s' = startedAnimations s
          \<or> (\<exists>a. startedAnimations s'
                    = startedAnimations s
                        @ [(a, number_div env (animationDuration env)
                                 (of_nat (length (animationQueue s')) + 1))]
                 \<and> currentAnimation s'
                     = Some (a, number_div env (animationDuration env)
                                  (of_nat (length (animationQueue s')) + 1))
                 \<and> animationRunning s'))
       \<and> map fst (startedAnimations s) @ animationQueue s = requests env evs (initial sq w b)
       \<and> (animationRunning s \<longrightarrow>
             startedAnimations s \<noteq> [] \<and> currentAnimation s = Some (last (startedAnimations s)))
       \<and> (animationRunning s \<and> ev \<noteq> AnimationFinished \<longrightarrow>
             startedAnimations s' = startedAnimations s)
       \<and> (\<not> animationRunning s \<longrightarrow> animationQueue s = [])
       \<and> (ev = AnimationFinished \<and> animationRunning s \<and> animationQueue s = [] \<and>
          draggablePiece s = None \<longrightarrow>
             piecesGroup s' = rendering (toSquares (last (requests env evs (initial sq w b))))
             \<and> \<not> animationRunning s' \<and> animationQueue s' = [])
       \<and> (ev = AnimationFinished \<and> draggablePiece s \<noteq> None \<longrightarrow> piecesGroup s' = piecesGroup s)"
proof -
  have inv: "queue_inv s"
    unfolding assms(1) by (rule run_queue_inv) (rule initial_queue)
  have pipe: "pipeline s = requests env evs (initial sq w b)"
    unfolding assms(1) by (simp add: run_pipeline initial_queue)
  have c1: "startedAnimations s' = startedAnimations s
          \<or> (\<exists>a. startedAnimations s'
                    = startedAnimations s
                        @ [(a, number_div env (animationDuration env)
                                 (of_nat (length (animationQueue s')) + 1))]
                 \<and> currentAnimation s'
                     = Some (a, number_div env (animationDuration env)
                                  (of_nat (length (animationQueue s')) + 1))
                 \<and> animationRunning s')"
    unfolding assms(2) by (rule step_duration)
  have c2: "map fst (startedAnimations s) @ animationQueue s = requests env evs (initial sq w b)"
    using pipe by (simp add: pipeline_def)
  have c3: "animationRunning s \<longrightarrow>
             startedAnimations s \<noteq> [] \<and> currentAnimation s = Some (last (startedAnimations s))"
    using inv by (simp add: queue_inv_def)
  have c4: "animationRunning s \<and> ev \<noteq> AnimationFinished \<longrightarrow>
             startedAnimations s' = startedAnimations s"
    unfolding assms(2) using step_no_preemption [of s ev env] by blast
  have c5: "\<not> animationRunning s \<longrightarrow> animationQueue s = []"
    using inv by (simp add: queue_inv_def)
  have c6: "ev = AnimationFinished \<and> animationRunning s \<and> animationQueue s = [] \<and>
          draggablePiece s = None \<longrightarrow>
             piecesGroup s' = rendering (toSquares (last (requests env evs (initial sq w b))))
             \<and> \<not> animationRunning s' \<and> animationQueue s' = []"
  proof (intro impI, elim conjE)
    assume h: "ev = AnimationFinished" "animationRunning s" "animationQueue s = []"
      "draggablePiece s = None"
    show "piecesGroup s' = rendering (toSquares (last (requests env evs (initial sq w b))))
             \<and> \<not> animationRunning s' \<and> animationQueue s' = []"
      using finish_last_renders [OF inv h(2,3,4), of env] h(1) pipe
      unfolding assms(2) by (simp add: dispatch_def drawPieces_loop_rendering)
  qed
  have c7: "ev = AnimationFinished \<and> draggablePiece s \<noteq> None \<longrightarrow> piecesGroup s' = piecesGroup s"
    unfolding assms(2) using finished_with_proxy [of s env] by blast
  from c1 c2 c3 c4 c5 c6 c7 show ?thesis
    by (intro conjI)
qed

lemmas queue_defs =
  animatePieces_def nextPieceAnimationInQueue_def new_ChessboardPiecesAnimation_def
  animationFinished_def animation_completed_def run_callback_def drawPiecesTimeout_def

lemma burst_state:
  "animationRunning (run example_env burst example_initial)"
  "animationQueue (run example_env burst example_initial) = []"
  "draggablePiece (run example_env burst example_initial) = None"
  "map snd (startedAnimations (run example_env burst example_initial)) = [300, 100, 150, 300]"
  "toSquares (last (requests example_env burst example_initial))
     = example_squares(''12'' := Null, ''44'' := Str ''wp'')"
  by (simp_all add: burst_def animate_to_def dispatch_def queue_defs requested_def
        example_env_def example_initial_fields Let_def)

lemma drag_state:
  "draggablePiece (run example_env [mouse_down ''12'', mouse_move ''12'' (110, 100),
       Animate example_squares (example_squares(''52'' := Null, ''44'' := Str ''bp'')) NoCallback]
       example_initial) \<noteq> None"
  "piecesGroup (run example_env [mouse_down ''12'', mouse_move ''12'' (110, 100),
       Animate example_squares (example_squares(''52'' := Null, ''44'' := Str ''bp'')) NoCallback]
       example_initial) ''12'' = Some (''wp'', False)"
  by (simp_all add: example_events handler_defs queue_defs example_env_def
        piecesGroup_example_initial example_initial_fields)

theorem C4_witness:
  "map snd (startedAnimations (run example_env burst example_initial)) = [300, 100, 150, 300]
   \<and> piecesGroup (after (dispatch example_env AnimationFinished (run example_env burst example_initial)))
         ''44'' = Some (''wp'', True)
   \<and> piecesGroup (after (dispatch example_env AnimationFinished (run example_env burst example_initial)))
         ''12'' = None
   \<and> piecesGroup (after (dispatch example_env AnimationFinished (run example_env burst example_initial)))
         ''52'' = Some (''bp'', True)
   \<and> \<not> animationRunning (after (dispatch example_env AnimationFinished
                                  (run example_env burst example_initial)))
   \<and> animationQueue (after (dispatch example_env AnimationFinished
                               (run example_env burst example_initial))) = []
   \<and> startedAnimations (after (dispatch example_env (animate_to ''28'')
                                  (run example_env [animate_to ''20''] example_initial)))
       = startedAnimations (run example_env [animate_to ''20''] example_initial)
   \<and> piecesGroup (after (dispatch example_env AnimationFinished
         (run example_env [mouse_down ''12'', mouse_move ''12'' (110, 100),
            Animate example_squares (example_squares(''52'' := Null, ''44'' := Str ''bp'')) NoCallback]
            example_initial))) ''12'' = Some (''wp'', False)
   \<and> piecesGroup (run example_env (burst @ [AnimationFinished]) example_initial) ''44''
       = Some (''wp'', True)
   \<and> map snd (startedAnimations (run example_env (burst @ [AnimationFinished]) example_initial))
       = [300, 100, 150, 300]"
proof -
  have computed:
      "piecesGroup (run example_env (burst @ [AnimationFinished]) example_initial) ''44''
         = Some (''wp'', True)"
      "map snd (startedAnimations (run example_env (burst @ [AnimationFinished]) example_initial))
         = [300, 100, 150, 300]"
    by code_simp+
  have r: "animationRunning (run example_env [animate_to ''20''] example_initial)"
      "animate_to ''28'' \<noteq> AnimationFinished"
    by (simp_all add: animate_to_def dispatch_def queue_defs example_env_def
          example_initial_fields Let_def)
  have rd: "rendering (example_squares(''12'' := Null, ''44'' := Str ''wp'')) ''44'' = Some (''wp'', True)"
      "rendering (example_squares(''12'' := Null, ''44'' := Str ''wp'')) ''12'' = None"
      "rendering (example_squares(''12'' := Null, ''44'' := Str ''wp'')) ''52'' = Some (''bp'', True)"
    by code_simp+
  from C4_queue_is_fifo_and_compresses [of "run example_env burst example_initial" example_env burst
          example_squares True True _ AnimationFinished, OF _ refl]
       C4_queue_is_fifo_and_compresses [of "run example_env [animate_to ''20''] example_initial"
          example_env "[animate_to ''20'']" example_squares True True _ "animate_to ''28''", OF _ refl]
       C4_queue_is_fifo_and_compresses [of "run example_env [mouse_down ''12'', mouse_move ''12'' (110, 100),
            Animate example_squares (example_squares(''52'' := Null, ''44'' := Str ''bp'')) NoCallback]
            example_initial"
          example_env "[mouse_down ''12'', mouse_move ''12'' (110, 100),
            Animate example_squares (example_squares(''52'' := Null, ''44'' := Str ''bp'')) NoCallback]"
          example_squares True True _ AnimationFinished, OF _ refl]
       burst_state drag_state r rd computed
  show ?thesis
    by (simp add: example_initial_def del: run.simps)
qed

lemma square_name_44: "''44'' \<in> set square_names"
  by code_simp

lemma index_string_44: "''44'' \<in> index_string ` {0..<64}"
  by (rule image_eqI [where x = 44]) (simp_all add: index_string_def digit_char_def)

text \<open>
  Claim C4 as stated fails in its last part. While the white pawn is dragged (a draggable
  piece exists), one animation that moves the black pawn from 52 to 44 is requested,
  starts with the full base duration and completes; the queue is then idle, but the
  completion has skipped its redraw: no piece element is drawn on square 44, where the
  target snapshot of that last animation has the black pawn.
\<close>

theorem C4_counterexample:
  "map snd (startedAnimations (run example_env animate_during_drag example_initial)) = [300]
   \<and> animationQueue (run example_env animate_during_drag example_initial) = []
   \<and> \<not> animationRunning (run example_env animate_during_drag example_initial)
   \<and> toSquares (last (requests example_env animate_during_drag example_initial)) ''44'' = Str ''bp''
   \<and> rendering (toSquares (last (requests example_env animate_during_drag example_initial))) ''44''
       = Some (''bp'', True)
   \<and> piecesGroup (run example_env animate_during_drag example_initial) ''44'' = None
   \<and> piecesGroup (run example_env animate_during_drag example_initial) ''52'' = Some (''bp'', True)"
  by (simp add: animate_during_drag_def example_events handler_defs queue_defs requested_def
        accepting_def example_env_def example_initial_fields piecesGroup_example_initial
        drawPieces_loop_lookup index_string_44 rendering_def square_name_44)

lemma piecesGroup_initial_rendering: "piecesGroup (initial sq w b) = rendering sq"
  by (simp add: initial_def drawPieces_loop_rendering)

text \<open>
  Claim C5, as the code has it. The handler looks the piece up among the piece elements of
  the view, not in the placement. In WaitForInputStart, a pointer-down whose hit square
  has no piece element, or has one whose colour is not input-enabled, returns without
  throwing and leaves the whole widget as it was: the state, the listeners, the markers
  and everything else. An empty slot of the placement is such a square whenever the view
  shows the placement.
\<close>

theorem C5_pointer_down_ignored:
  assumes "moveInputState s = waitForInputStart"
    and "getPiece s (d_index e) = None
         \<or> (\<exists>n v. getPiece s (d_index e) = Some (n, v) \<and> \<not> input_enabled s n)
         \<or> (piecesGroup s = rendering (squares s) \<and> \<not> truthy (squares s (to_string (d_index e))))"
  shows "onPointerDown env e s = Inr s"
proof -
  have "getPiece s (d_index e) = None"
    if "piecesGroup s = rendering (squares s)" "\<not> truthy (squares s (to_string (d_index e)))"
    using that by (cases "squares s (to_string (d_index e))") (auto simp: getPiece_def rendering_def)
  with assms show ?thesis
    by (auto simp: onPointerDown_def input_enabled_def Let_def)
qed

theorem C5_witness:
  "onPointerDown example_env
     \<lparr>d_type = mousedown, d_button = 0, d_index = Str ''30'', d_point = (5, 5)\<rparr>
     example_initial = Inr example_initial
   \<and> onPointerDown example_env
     \<lparr>d_type = touchstart, d_button = 0, d_index = Str ''52'', d_point = (5, 5)\<rparr>
     (example_initial\<lparr>inputBlackEnabled := False\<rparr>)
       = Inr (example_initial\<lparr>inputBlackEnabled := False\<rparr>)
   \<and> piecesGroup example_initial = rendering (squares example_initial)
   \<and> \<not> truthy (squares example_initial ''30'')"
proof -
  have sync: "piecesGroup example_initial = rendering (squares example_initial)"
    by (simp add: example_initial_def piecesGroup_initial_rendering example_initial_fields [unfolded example_initial_def])
  have empty: "\<not> truthy (squares example_initial (to_string (d_index
      \<lparr>d_type = mousedown, d_button = 0, d_index = Str ''30'', d_point = (5, 5)\<rparr>)))"
    by (simp add: example_initial_fields example_squares_def)
  have pg52: "getPiece (example_initial\<lparr>inputBlackEnabled := False\<rparr>) (Str ''52'') = Some (''bp'', True)"
    by (simp add: getPiece_def piecesGroup_example_initial)
  have en: "\<not> input_enabled (example_initial\<lparr>inputBlackEnabled := False\<rparr>) ''bp''"
    by (simp add: input_enabled_def)
  have st: "moveInputState example_initial = waitForInputStart"
    "moveInputState (example_initial\<lparr>inputBlackEnabled := False\<rparr>) = waitForInputStart"
    by (simp_all add: example_initial_fields)
  have h30: "getPiece example_initial (d_index
        \<lparr>d_type = mousedown, d_button = 0, d_index = Str ''30'', d_point = (5, 5)\<rparr>) = None
     \<or> (\<exists>n v. getPiece example_initial (d_index
        \<lparr>d_type = mousedown, d_button = 0, d_index = Str ''30'', d_point = (5, 5)\<rparr>) = Some (n, v)
         \<and> \<not> input_enabled example_initial n)
     \<or> (piecesGroup example_initial = rendering (squares example_initial) \<and>
        \<not> truthy (squares example_initial (to_string (d_index
        \<lparr>d_type = mousedown, d_button = 0, d_index = Str ''30'', d_point = (5, 5)\<rparr>))))"
    using sync empty by blast
  have h52: "getPiece (example_initial\<lparr>inputBlackEnabled := False\<rparr>) (d_index
        \<lparr>d_type = touchstart, d_button = 0, d_index = Str ''52'', d_point = (5, 5)\<rparr>) = None
     \<or> (\<exists>n v. getPiece (example_initial\<lparr>inputBlackEnabled := False\<rparr>) (d_index
        \<lparr>d_type = touchstart, d_button = 0, d_index = Str ''52'', d_point = (5, 5)\<rparr>) = Some (n, v)
         \<and> \<not> input_enabled (example_initial\<lparr>inputBlackEnabled := False\<rparr>) n)
     \<or> (piecesGroup (example_initial\<lparr>inputBlackEnabled := False\<rparr>)
          = rendering (squares (example_initial\<lparr>inputBlackEnabled := False\<rparr>)) \<and>
        \<not> truthy (squares (example_initial\<lparr>inputBlackEnabled := False\<rparr>) (to_string (d_index
        \<lparr>d_type = touchstart, d_button = 0, d_index = Str ''52'', d_point = (5, 5)\<rparr>))))"
    using pg52 en by auto
  show ?thesis
    using C5_pointer_down_ignored [OF st(1) h30, of example_env]
          C5_pointer_down_ignored [OF st(2) h52, of example_env]
          sync empty
    by simp
qed

text \<open>
  Claim C5 as stated fails when the square is read in the placement. After the two quick
  moves the machine is in WaitForInputStart and the slot of square 28 is empty, but the
  view still shows the white pawn there; a press on square 28 enters
  PieceClickedThreshold, attaches both listeners and sets a move marker on 28.
\<close>

theorem C5_counterexample:
  "moveInputState (run example_env two_quick_moves example_initial) = waitForInputStart
   \<and> squares (run example_env two_quick_moves example_initial) ''28'' = Null
   \<and> moveInputState (run example_env (two_quick_moves @ [mouse_down ''28'']) example_initial)
       = pieceClickedThreshold
   \<and> pointerMoveListener (run example_env (two_quick_moves @ [mouse_down ''28'']) example_initial)
       = Some mousemove
   \<and> pointerUpListener (run example_env (two_quick_moves @ [mouse_down ''28'']) example_initial)
       = Some mouseup
   \<and> markers (run example_env (two_quick_moves @ [mouse_down ''28'']) example_initial)
       = [(Str ''28'', move)]"
  by (simp add: two_quick_moves_def example_events handler_defs queue_defs example_env_def
        piecesGroup_example_initial example_initial_fields
        drawPieces_loop_lookup index_string_28 example_squares_def)

lemma reachable_queue_inv: "queue_inv (run env evs (initial sq w b))"
  by (rule run_queue_inv) (rule initial_queue)

lemma run_callback_view:
  "piecesGroup (after (run_callback env c u)) = piecesGroup u"
  "anim_view (after (run_callback env c u)) = anim_view u"
  using reset_returns [of env None u]
  by (cases c; auto simp: run_callback_def anim_view_def simp del: setMoveInputState.simps)+

lemma finished_current_at_rest:
  assumes "animationRunning t" and "currentAnimation t = Some (a, d)"
    and "a_callback a = ResetCallback"
  shows "at_rest (after (dispatch env AnimationFinished t))"
    and "thrown (dispatch env AnimationFinished t) = None"
proof -
  obtain t' where t': "animation_completed env a (t\<lparr>animationRunning := False\<rparr>) = Inr t'"
      "at_rest t'"
    using reset_callback_at_rest [OF assms(3)] by blast
  then show "at_rest (after (dispatch env AnimationFinished t))"
    and "thrown (dispatch env AnimationFinished t) = None"
    using assms(1,2) by (simp_all add: dispatch_def animationFinished_def thrown_def)
qed

lemma finished_current_renders:
  assumes "animationRunning t" and "currentAnimation t = Some (a, d)"
    and "draggablePiece t = None"
  shows "piecesGroup (after (dispatch env AnimationFinished t)) = rendering (toSquares a)"
proof -
  let ?u = "nextPieceAnimationInQueue env (drawPieces (toSquares a) (t\<lparr>animationRunning := False\<rparr>))"
  have "dispatch env AnimationFinished t = run_callback env (a_callback a) ?u"
    using assms by (simp add: dispatch_def animationFinished_def animation_completed_def Let_def)
  then show ?thesis
    by (simp add: run_callback_view drawPieces_loop_rendering)
qed

lemma drain_resets:
  assumes "animationRunning t" and "currentAnimation t \<noteq> None"
    and "animationQueue t = q @ [a]" and "a_callback a = ResetCallback"
  shows "at_rest (run env (replicate (length q + 2) AnimationFinished) t)"
  using assms
proof (induction q arbitrary: t)
  case Nil
  let ?t1 = "after (dispatch env AnimationFinished t)"
  have "anim_view ?t1 =
          (startedAnimations t @ [(a, number_div env (animationDuration env) (of_nat (length ([]::animation list)) + 1))],
           [], True, Some (a, number_div env (animationDuration env) (of_nat (length ([]::animation list)) + 1)))"
    using step_view [of env AnimationFinished t] Nil.prems(1-3) by auto
  then have "animationRunning ?t1"
      "currentAnimation ?t1 = Some (a, number_div env (animationDuration env) (of_nat (length ([]::animation list)) + 1))"
    by (simp_all add: anim_view_def)
  from finished_current_at_rest(1) [OF this Nil.prems(4), of env] show ?case
    by (simp add: numeral_2_eq_2)
next
  case (Cons x q)
  let ?t1 = "after (dispatch env AnimationFinished t)"
  have "anim_view ?t1 =
          (startedAnimations t @ [(x, number_div env (animationDuration env) (of_nat (length (q @ [a])) + 1))],
           q @ [a], True, Some (x, number_div env (animationDuration env) (of_nat (length (q @ [a])) + 1)))"
    using step_view [of env AnimationFinished t] Cons.prems(1-3) by auto
  then have "animationRunning ?t1" "currentAnimation ?t1 \<noteq> None" "animationQueue ?t1 = q @ [a]"
    by (simp_all add: anim_view_def)
  from Cons.IH [OF this Cons.prems(4)] show ?case
    by simp
qed

text \<open>
  Claim C2. In any state the widget reaches from construction, entering MoveDone from
  DragTo, ClickTo or ClickDragTo with a truthy target index of another square than
  startIndex, and with moveDoneCallback accepting, returns with the slot of startIndex
  cleared and the moved piece in the slot of the target. From DragTo or ClickDragTo the
  change is drawn at once (each occupied square of the new placement has its visible piece
  element, and there is no other), no animation is added, and Reset has put the machine at
  rest. From ClickTo nothing is drawn and the machine waits in MoveDone, while the
  animation from the old to the new placement, carrying the reset callback, is handed to
  the queue: when no animation runs it starts at once with the base duration divided by
  one, and its completion puts the machine at rest through Reset (and, no draggable piece
  being present, draws the new placement); when an animation runs it is appended to the
  queue, and the completions of the running one, of those queued before it and of its own
  put the machine at rest.
\<close>

theorem C2_accepted_move_commits:
  assumes "s = run env evs (initial sq w b)"
    and "moveInputState s \<in> set [dragTo, clickTo, clickDragTo]"
    and "truthy (p_index p)"
    and "moveDoneCallback env (startIndex s) (p_index p)"
    and "to_string (startIndex s) \<noteq> to_string (p_index p)"
  shows "\<exists>s'. setMoveInputState env moveDone (Some p) s = Inr s'
      \<and> squares s' = (squares s)(to_string (startIndex s) := Null,
                                   to_string (p_index p) := movedPiece s)
      \<and> squares s' (to_string (startIndex s)) = Null
      \<and> squares s' (to_string (p_index p)) = movedPiece s
      \<and> (moveInputState s = clickTo \<longrightarrow>
            piecesGroup s' = piecesGroup s \<and> moveInputState s' = moveDone
            \<and> (\<not> animationRunning s \<longrightarrow>
                  startedAnimations s'
                    = startedAnimations s
                        @ [(\<lparr>fromSquares = squares s, toSquares = squares s', a_callback = ResetCallback\<rparr>,
                            number_div env (animationDuration env) 1)]
                  \<and> currentAnimation s'
                      = Some (\<lparr>fromSquares = squares s, toSquares = squares s', a_callback = ResetCallback\<rparr>,
                              number_div env (animationDuration env) 1)
                  \<and> animationRunning s' \<and> animationQueue s' = []
                  \<and> thrown (dispatch env AnimationFinished s') = None
                  \<and> at_rest (run env [AnimationFinished] s')
                  \<and> (draggablePiece s = None \<longrightarrow>
                        piecesGroup (run env [AnimationFinished] s') = rendering (squares s')))
            \<and> (animationRunning s \<longrightarrow>
                  startedAnimations s' = startedAnimations s
                  \<and> animationQueue s'
                      = animationQueue s
                          @ [\<lparr>fromSquares = squares s, toSquares = squares s', a_callback = ResetCallback\<rparr>]
                  \<and> animationRunning s'
                  \<and> at_rest (run env (replicate (length (animationQueue s) + 2) AnimationFinished) s')))
      \<and> (moveInputState s \<noteq> clickTo \<longrightarrow>
            piecesGroup s' = rendering (squares s')
            \<and> startedAnimations s' = startedAnimations s
            \<and> animationQueue s' = animationQueue s
            \<and> at_rest s')"
proof (cases "moveInputState s = clickTo")
  case True
  let ?s3 = "setPiece (p_index p) (movedPiece s)
               (setPiece (startIndex s) Null (s\<lparr>moveInputState := moveDone, endIndex := p_index p\<rparr>))"
  let ?sq = "(squares s)(to_string (startIndex s) := Null, to_string (p_index p) := movedPiece s)"
  let ?a = "\<lparr>fromSquares = squares s, toSquares = ?sq, a_callback = ResetCallback\<rparr>"
  let ?s' = "animatePieces env (squares s) ?sq ResetCallback ?s3"
  have inv: "queue_inv s"
    unfolding assms(1) by (rule reachable_queue_inv)
  have r: "setMoveInputState env moveDone (Some p) s = Inr ?s'"
    using moveDone_accepted [OF assms(2-4)] True by (simp add: Let_def)
  have sq: "squares ?s' = ?sq"
    by simp
  have rest: "piecesGroup ?s' = piecesGroup s" "moveInputState ?s' = moveDone"
      "draggablePiece ?s' = draggablePiece s"
    by simp_all
  have view_busy: "anim_view ?s' = (startedAnimations s, animationQueue s @ [?a], True, currentAnimation s)"
    if "animationRunning s"
    using that by (simp add: animatePieces_view Let_def)
  have view_idle: "anim_view ?s' =
       (startedAnimations s @ [(?a, number_div env (animationDuration env) 1)], [], True,
        Some (?a, number_div env (animationDuration env) 1))"
    if "\<not> animationRunning s" "animationQueue s = []"
    using that by (simp add: animatePieces_view Let_def)
  have idle: "startedAnimations ?s' = startedAnimations s @ [(?a, number_div env (animationDuration env) 1)]
      \<and> currentAnimation ?s' = Some (?a, number_div env (animationDuration env) 1)
      \<and> animationRunning ?s' \<and> animationQueue ?s' = []
      \<and> thrown (dispatch env AnimationFinished ?s') = None
      \<and> at_rest (run env [AnimationFinished] ?s')
      \<and> (draggablePiece s = None \<longrightarrow>
            piecesGroup (run env [AnimationFinished] ?s') = rendering ?sq)"
    if nr: "\<not> animationRunning s"
  proof -
    have q: "animationQueue s = []"
      using inv nr by (simp add: queue_inv_def)
    have v: "startedAnimations ?s' = startedAnimations s @ [(?a, number_div env (animationDuration env) 1)]"
        "currentAnimation ?s' = Some (?a, number_div env (animationDuration env) 1)"
        "animationRunning ?s'" "animationQueue ?s' = []"
      using view_idle [OF nr q] by (simp_all add: anim_view_def)
    have f: "at_rest (after (dispatch env AnimationFinished ?s'))"
        "thrown (dispatch env AnimationFinished ?s') = None"
      using finished_current_at_rest [OF v(3) v(2), of env] by simp_all
    have d: "piecesGroup (after (dispatch env AnimationFinished ?s')) = rendering ?sq"
      if "draggablePiece s = None"
      using finished_current_renders [OF v(3) v(2), of env] that rest(3) by simp
    show ?thesis
      using v f d by simp
  qed
  have busy: "startedAnimations ?s' = startedAnimations s
      \<and> animationQueue ?s' = animationQueue s @ [?a]
      \<and> animationRunning ?s'
      \<and> at_rest (run env (replicate (length (animationQueue s) + 2) AnimationFinished) ?s')"
    if ru: "animationRunning s"
  proof -
    have c: "currentAnimation s \<noteq> None"
      using inv ru by (simp add: queue_inv_def)
    have v: "startedAnimations ?s' = startedAnimations s"
        "animationQueue ?s' = animationQueue s @ [?a]"
        "animationRunning ?s'" "currentAnimation ?s' \<noteq> None"
      using view_busy [OF ru] c by (simp_all add: anim_view_def)
    have "a_callback ?a = ResetCallback" by simp
    from drain_resets [OF v(3) v(4) v(2) this, of env] v show ?thesis
      by simp
  qed
  have s0: "?sq (to_string (startIndex s)) = Null" "?sq (to_string (p_index p)) = movedPiece s"
    using assms(5) by simp_all
  show ?thesis
    apply (rule exI [of _ ?s'])
    apply (simp only: sq)
    using r rest(1,2) idle busy s0 True sq
    apply (intro conjI impI)
    apply (simp_all only: sq simp_thms)
    done
next
  case False
  let ?s3 = "setPiece (p_index p) (movedPiece s)
               (setPiece (startIndex s) Null (s\<lparr>moveInputState := moveDone, endIndex := p_index p\<rparr>))"
  have r: "setMoveInputState env moveDone (Some p) s
             = setMoveInputState env reset None (drawPieces (squares ?s3) ?s3)"
    using moveDone_accepted [OF assms(2-4)] False by (simp add: Let_def del: setMoveInputState.simps)
  obtain s' where s': "setMoveInputState env reset None (drawPieces (squares ?s3) ?s3) = Inr s'"
      "at_rest s'"
      "squares s' = (if truthy (startIndex (drawPieces (squares ?s3) ?s3))
                        \<and> \<not> truthy (endIndex (drawPieces (squares ?s3) ?s3))
                        \<and> truthy (movedPiece (drawPieces (squares ?s3) ?s3))
                      then (squares (drawPieces (squares ?s3) ?s3))
                             (to_string (startIndex (drawPieces (squares ?s3) ?s3))
                                := movedPiece (drawPieces (squares ?s3) ?s3))
                      else squares (drawPieces (squares ?s3) ?s3))"
      "piecesGroup s' = piecesGroup (drawPieces (squares ?s3) ?s3)"
      "animationQueue s' = animationQueue (drawPieces (squares ?s3) ?s3)"
      "startedAnimations s' = startedAnimations (drawPieces (squares ?s3) ?s3)"
    using reset_returns [of env None "drawPieces (squares ?s3) ?s3"] by blast
  have sq: "squares s' = (squares s)(to_string (startIndex s) := Null,
                                   to_string (p_index p) := movedPiece s)"
    using s'(3) assms(3) by simp
  have pg: "piecesGroup s' = rendering (squares s')"
    using s'(4) sq by (simp add: drawPieces_loop_rendering)
  show ?thesis
    using r s'(1,2,5,6) sq pg False assms(5)
    by (intro exI [of _ s']) (simp del: setMoveInputState.simps)
qed

lemma index_string_20: "''20'' \<in> index_string ` {0..<64}"
  by (rule image_eqI [where x = 20]) (simp_all add: index_string_def digit_char_def)

lemma clickTo_while_animating:
  "moveInputState (run example_env [animate_to ''20'', mouse_down ''12'', mouse_up ''12''] example_initial) = clickTo"
  "startIndex (run example_env [animate_to ''20'', mouse_down ''12'', mouse_up ''12''] example_initial) = Str ''12''"
  "movedPiece (run example_env [animate_to ''20'', mouse_down ''12'', mouse_up ''12''] example_initial) = Str ''wp''"
  "animationRunning (run example_env [animate_to ''20'', mouse_down ''12'', mouse_up ''12''] example_initial)"
  "animationQueue (run example_env [animate_to ''20'', mouse_down ''12'', mouse_up ''12''] example_initial) = []"
  by (simp_all add: animate_to_def example_events handler_defs queue_defs example_env_def
        piecesGroup_example_initial example_initial_fields)

theorem C2_witness:
  "(\<exists>s'. setMoveInputState example_env moveDone (Some (square_params ''28'')) example_clickTo = Inr s'
       \<and> squares s' ''12'' = Null \<and> squares s' ''28'' = Str ''wp''
       \<and> moveInputState s' = moveDone \<and> piecesGroup s' = piecesGroup example_clickTo
       \<and> map snd (startedAnimations s') = [300] \<and> animationRunning s'
       \<and> at_rest (run example_env [AnimationFinished] s')
       \<and> piecesGroup (run example_env [AnimationFinished] s') ''28'' = Some (''wp'', True)
       \<and> piecesGroup (run example_env [AnimationFinished] s') ''12'' = None)
   \<and> (\<exists>s'. setMoveInputState example_env moveDone (Some (square_params ''28''))
              (run example_env [animate_to ''20'', mouse_down ''12'', mouse_up ''12''] example_initial)
            = Inr s'
       \<and> squares s' ''12'' = Null \<and> squares s' ''28'' = Str ''wp''
       \<and> length (animationQueue s') = 1
       \<and> at_rest (run example_env (replicate 2 AnimationFinished) s'))
   \<and> (\<exists>s'. setMoveInputState example_env moveDone (Some (square_params ''28'')) example_dragTo = Inr s'
       \<and> squares s' ''12'' = Null \<and> squares s' ''28'' = Str ''wp''
       \<and> piecesGroup s' ''28'' = Some (''wp'', True) \<and> piecesGroup s' ''12'' = None
       \<and> piecesGroup s' ''52'' = Some (''bp'', True) \<and> at_rest s')
   \<and> map snd (startedAnimations (after (setMoveInputState example_env moveDone
                 (Some (square_params ''28'')) example_clickTo))) = [300]
   \<and> at_rest (run example_env [AnimationFinished] (after (setMoveInputState example_env moveDone
                 (Some (square_params ''28'')) example_clickTo)))
   \<and> piecesGroup (after (setMoveInputState example_env moveDone
                 (Some (square_params ''28'')) example_dragTo)) ''28'' = Some (''wp'', True)"
proof -
  let ?r = "run example_env [animate_to ''20'', mouse_down ''12'', mouse_up ''12''] example_initial"
  have computed:
      "map snd (startedAnimations (after (setMoveInputState example_env moveDone
                 (Some (square_params ''28'')) example_clickTo))) = [300]"
      "at_rest (run example_env [AnimationFinished] (after (setMoveInputState example_env moveDone
                 (Some (square_params ''28'')) example_clickTo)))"
      "piecesGroup (after (setMoveInputState example_env moveDone
                 (Some (square_params ''28'')) example_dragTo)) ''28'' = Some (''wp'', True)"
    by code_simp+
  have reach: "example_clickTo = run example_env [mouse_down ''12'', mouse_up ''12'']
                                   (initial example_squares True True)"
      "example_dragTo = run example_env [mouse_down ''12'', mouse_move ''12'' (110, 100)]
                                   (initial example_squares True True)"
      "?r = run example_env [animate_to ''20'', mouse_down ''12'', mouse_up ''12'']
                                   (initial example_squares True True)"
    using example_clickTo_reached example_dragTo_reached by (simp_all add: example_initial_def)
  have a: "moveInputState example_clickTo \<in> set [dragTo, clickTo, clickDragTo]"
      "truthy (p_index (square_params ''28''))"
      "moveDoneCallback example_env (startIndex example_clickTo) (p_index (square_params ''28''))"
      "to_string (startIndex example_clickTo) \<noteq> to_string (p_index (square_params ''28''))"
      "moveInputState example_clickTo = clickTo"
      "startIndex example_clickTo = Str ''12''" "movedPiece example_clickTo = Str ''wp''"
      "\<not> animationRunning example_clickTo" "draggablePiece example_clickTo = None"
      "startedAnimations example_clickTo = []" "squares example_clickTo = example_squares"
    by (simp_all add: example_clickTo_def square_params_def example_env_def example_initial_fields)
  have b: "moveInputState example_dragTo \<in> set [dragTo, clickTo, clickDragTo]"
      "moveDoneCallback example_env (startIndex example_dragTo) (p_index (square_params ''28''))"
      "to_string (startIndex example_dragTo) \<noteq> to_string (p_index (square_params ''28''))"
      "moveInputState example_dragTo \<noteq> clickTo"
      "startIndex example_dragTo = Str ''12''" "movedPiece example_dragTo = Str ''wp''"
      "squares example_dragTo = example_squares"
    by (simp_all add: example_dragTo_def square_params_def example_env_def example_initial_fields)
  have c: "moveInputState ?r \<in> set [dragTo, clickTo, clickDragTo]"
      "moveDoneCallback example_env (startIndex ?r) (p_index (square_params ''28''))"
      "to_string (startIndex ?r) \<noteq> to_string (p_index (square_params ''28''))"
    using clickTo_while_animating by (simp_all add: square_params_def example_env_def)
  have p: "p_index (square_params ''28'') = Str ''28''"
      "number_div example_env (animationDuration example_env) 1 = 300"
    by (simp_all add: square_params_def example_env_def)
  have rd: "rendering (example_squares(''12'' := Null, ''28'' := Str ''wp'')) ''28'' = Some (''wp'', True)"
      "rendering (example_squares(''12'' := Null, ''28'' := Str ''wp'')) ''12'' = None"
      "rendering (example_squares(''12'' := Null, ''28'' := Str ''wp'')) ''52'' = Some (''bp'', True)"
    by code_simp+
  from C2_accepted_move_commits [OF reach(1) a(1-4)] a(5-11) p rd
  have 1: "\<exists>s'. setMoveInputState example_env moveDone (Some (square_params ''28'')) example_clickTo = Inr s'
       \<and> squares s' ''12'' = Null \<and> squares s' ''28'' = Str ''wp''
       \<and> moveInputState s' = moveDone \<and> piecesGroup s' = piecesGroup example_clickTo
       \<and> map snd (startedAnimations s') = [300] \<and> animationRunning s'
       \<and> at_rest (run example_env [AnimationFinished] s')
       \<and> piecesGroup (run example_env [AnimationFinished] s') ''28'' = Some (''wp'', True)
       \<and> piecesGroup (run example_env [AnimationFinished] s') ''12'' = None"
    by (auto simp del: setMoveInputState.simps run.simps)
  from C2_accepted_move_commits [OF reach(3) c(1) a(2) c(2,3)] clickTo_while_animating p
  have 2: "\<exists>s'. setMoveInputState example_env moveDone (Some (square_params ''28'')) ?r = Inr s'
       \<and> squares s' ''12'' = Null \<and> squares s' ''28'' = Str ''wp''
       \<and> length (animationQueue s') = 1
       \<and> at_rest (run example_env (replicate 2 AnimationFinished) s')"
    by (auto simp: numeral_2_eq_2 simp del: setMoveInputState.simps run.simps replicate.simps)
  from C2_accepted_move_commits [OF reach(2) b(1) a(2) b(2,3)] b(4-7) p rd
  have 3: "\<exists>s'. setMoveInputState example_env moveDone (Some (square_params ''28'')) example_dragTo = Inr s'
       \<and> squares s' ''12'' = Null \<and> squares s' ''28'' = Str ''wp''
       \<and> piecesGroup s' ''28'' = Some (''wp'', True) \<and> piecesGroup s' ''12'' = None
       \<and> piecesGroup s' ''52'' = Some (''bp'', True) \<and> at_rest s'"
    by (auto simp del: setMoveInputState.simps)
  from 1 2 3 computed show ?thesis by blast
qed

text \<open>
  Claim C1, evaluated where the code breaks it. In click mode the pawn of square 12 is in
  ClickDragTo when an animation requested by the application completes and draws a
  position without that pawn, so that square 12 has no piece element. The release on the
  start square, which cancels the gesture, writes the piece into the placement and then
  throws a TypeError in \<^verbatim>\<open>setPieceVisibility\<close>, before Reset is requested: the machine
  stays in ClickDragTo, startIndex and movedPiece are kept, the move marker of square 12
  remains and both listeners stay attached.
\<close>

theorem C1_release_on_start_throws_before_reset:
  "moveInputState (run click_env capture_during_click_drag example_initial) = clickDragTo
   \<and> startIndex (run click_env capture_during_click_drag example_initial) = Str ''12''
   \<and> getPiece (run click_env capture_during_click_drag example_initial) (Str ''12'') = None
   \<and> thrown (dispatch click_env (mouse_up ''12'')
                (run click_env capture_during_click_drag example_initial)) = Some TypeError
   \<and> moveInputState (run click_env (capture_during_click_drag @ [mouse_up ''12'']) example_initial)
       = clickDragTo
   \<and> startIndex (run click_env (capture_during_click_drag @ [mouse_up ''12'']) example_initial)
       = Str ''12''
   \<and> movedPiece (run click_env (capture_during_click_drag @ [mouse_up ''12'']) example_initial)
       = Str ''wp''
   \<and> markers (run click_env (capture_during_click_drag @ [mouse_up ''12'']) example_initial)
       = [(Str ''12'', move)]
   \<and> pointerMoveListener (run click_env (capture_during_click_drag @ [mouse_up ''12''])
                            example_initial) = Some mousemove
   \<and> pointerUpListener (run click_env (capture_during_click_drag @ [mouse_up ''12''])
                          example_initial) = Some mouseup
   \<and> windowListeners (run click_env (capture_during_click_drag @ [mouse_up ''12''])
                        example_initial) = [mousemove, mouseup]
   \<and> \<not> at_rest (run click_env (capture_during_click_drag @ [mouse_up ''12'']) example_initial)"
  by (simp add: capture_during_click_drag_def click_env_def example_events handler_defs queue_defs
        example_env_def piecesGroup_example_initial example_initial_fields at_rest_def thrown_def
        drawPieces_loop_lookup index_string_12 example_squares_def)

text \<open>
  Claim C7, as the code has it. In DragTo, ClickDragTo or ClickTo, a pointer-up whose
  target carries no truthy \<^verbatim>\<open>data-index\<close>, be it an element without one or no element
  at all, does not throw: a redraw is scheduled and Reset puts the machine at rest. The
  placement changes at most in the slot of startIndex, where Reset writes movedPiece back
  when no end square is set, so it is unchanged whenever that slot already holds
  movedPiece. When the target is an element, moveCanceledCallback is called once more,
  with reason movedOutOfBoard and an undefined square. Nothing is said here about the
  report when no element is found, nor about a target that carries a \<^verbatim>\<open>data-index\<close>
  without being a square of the board.
\<close>

theorem C7_pointer_up_outside_cancels:
  assumes "moveInputState s = dragTo \<or> moveInputState s = clickDragTo \<or> moveInputState s = clickTo"
    and "\<not> on_square e"
  shows "\<exists>s'. onPointerUp env e s = Inr s' \<and> at_rest s'
      \<and> drawPiecesDebounce s'
      \<and> (squares s' = squares s
           \<or> squares s' = (squares s)(to_string (startIndex s) := movedPiece s))
      \<and> (squares s (to_string (startIndex s)) = movedPiece s \<longrightarrow> squares s' = squares s)
      \<and> ((e_type e = mouseup \<or> e_type e = touchend) \<and> (\<exists>b index. e_target e = Element b index)
           \<longrightarrow> canceled s' = canceled s @ [(movedOutOfBoard, Undefined)])"
proof -
  obtain r where r: "setMoveInputState env reset None (drawPiecesDebounced s) = Inr r" "at_rest r"
      "squares r = (if truthy (startIndex (drawPiecesDebounced s))
                      \<and> \<not> truthy (endIndex (drawPiecesDebounced s))
                      \<and> truthy (movedPiece (drawPiecesDebounced s))
                    then (squares (drawPiecesDebounced s))
                           (to_string (startIndex (drawPiecesDebounced s))
                              := movedPiece (drawPiecesDebounced s))
                    else squares (drawPiecesDebounced s))"
      "canceled r = canceled (drawPiecesDebounced s)"
      "drawPiecesDebounce r = drawPiecesDebounce (drawPiecesDebounced s)"
    using reset_returns [of env None "drawPiecesDebounced s"] by blast
  let ?c = "moveCanceledCallback movedOutOfBoard Undefined r"
  have sq: "squares r = squares s
           \<or> squares r = (squares s)(to_string (startIndex s) := movedPiece s)"
    using r(3) by simp
  have same: "squares r = squares s" if "squares s (to_string (startIndex s)) = movedPiece s"
  proof -
    have "(squares s)(to_string (startIndex s) := movedPiece s) = squares s"
      using that by auto
    then show ?thesis using sq by auto
  qed
  show ?thesis
  proof (cases "(e_type e = mouseup \<or> e_type e = touchend) \<and> (\<exists>b index. e_target e = Element b index)")
    case True
    then obtain b index where t: "e_target e = Element b index" by blast
    then have "\<not> truthy index"
      using assms(2) True by (simp add: on_square_def)
    then have up: "onPointerUp env e s = Inr ?c"
      using True t r(1) by (simp add: onPointerUp_def bind_result_def del: setMoveInputState.simps)
    show ?thesis
      using up r(2,4,5) sq same True by (intro exI [of _ ?c]) simp
  next
    case False
    then have up: "onPointerUp env e s = Inr r"
      using r(1)
      by (cases "e_target e") (auto simp: onPointerUp_def simp del: setMoveInputState.simps)
    show ?thesis
      using up r(2,5) sq same False by (intro exI [of _ r]) auto
  qed
qed

theorem C7_witness:
  "(\<exists>s'. onPointerUp example_env
           \<lparr>e_type = mouseup, e_page = (0, 0), e_target = Element False Null\<rparr> example_dragTo = Inr s'
      \<and> at_rest s' \<and> canceled s' = [(movedOutOfBoard, Undefined)] \<and> squares s' = example_squares)
   \<and> (\<exists>s'. onPointerUp example_env
           \<lparr>e_type = touchend, e_page = (- 5, - 5), e_target = NoTarget\<rparr> example_clickTo = Inr s'
      \<and> at_rest s' \<and> drawPiecesDebounce s' \<and> squares s' = example_squares)"
proof -
  let ?e1 = "\<lparr>e_type = mouseup, e_page = (0, 0), e_target = Element False Null\<rparr>"
  let ?e2 = "\<lparr>e_type = touchend, e_page = (- 5, - 5), e_target = NoTarget\<rparr>"
  have a: "moveInputState example_dragTo = dragTo \<or> moveInputState example_dragTo = clickDragTo
             \<or> moveInputState example_dragTo = clickTo"
      "moveInputState example_clickTo = dragTo \<or> moveInputState example_clickTo = clickDragTo
             \<or> moveInputState example_clickTo = clickTo"
      "\<not> on_square ?e1" "\<not> on_square ?e2"
    by (simp_all add: example_dragTo_def example_clickTo_def on_square_def)
  have b: "squares example_dragTo (to_string (startIndex example_dragTo)) = movedPiece example_dragTo"
      "squares example_dragTo = example_squares" "canceled example_dragTo = []"
      "squares example_clickTo (to_string (startIndex example_clickTo)) = movedPiece example_clickTo"
      "squares example_clickTo = example_squares"
    by (simp_all add: example_dragTo_def example_clickTo_def example_initial_fields example_squares_def)
  from C7_pointer_up_outside_cancels [OF a(1) a(3), of example_env] b
  have 1: "\<exists>s'. onPointerUp example_env ?e1 example_dragTo = Inr s'
      \<and> at_rest s' \<and> canceled s' = [(movedOutOfBoard, Undefined)] \<and> squares s' = example_squares"
    by auto
  from C7_pointer_up_outside_cancels [OF a(2) a(4), of example_env] b
  have 2: "\<exists>s'. onPointerUp example_env ?e2 example_clickTo = Inr s'
      \<and> at_rest s' \<and> drawPiecesDebounce s' \<and> squares s' = example_squares"
    by auto
  from 1 2 show ?thesis by blast
qed

text \<open>
  Claim C7 as stated fails in three ways. The placement: after the two quick moves the
  view shows the pawn on 28 while the placement has it on 36; a click on that pawn element
  leads to ClickTo, and a mouse button released over an element outside the squares then
  resets the machine and writes the pawn into the placement at 28. The report: in DragTo,
  a finger lifted where no element is found resets the machine without any call of
  moveCanceledCallback, while a lift over an element without \<^verbatim>\<open>data-index\<close> is
  reported. The square: \<^verbatim>\<open>onPointerUp\<close> does not ask whether the target is a child of
  the board group, so a release outside the board over a foreign element with
  \<^verbatim>\<open>data-index\<close> 28 commits the dragged pawn to square 28 without any report, and in
  ClickTo the same release leaves the machine in ClickTo.
\<close>

theorem C7_counterexample:
  "moveInputState (run example_env (two_quick_moves @ [mouse_down ''28'', mouse_up ''28''])
                     example_initial) = clickTo
   \<and> squares (run example_env (two_quick_moves @ [mouse_down ''28'', mouse_up ''28''])
                 example_initial) ''28'' = Null
   \<and> squares (run example_env (two_quick_moves @ [mouse_down ''28'', mouse_up ''28'', mouse_up_outside])
                 example_initial) ''28'' = Str ''wp''
   \<and> moveInputState (run example_env [touch_start ''12'', touch_move ''12'' (110, 100)]
                       example_initial) = dragTo
   \<and> at_rest (run example_env [touch_start ''12'', touch_move ''12'' (110, 100), touch_end_nowhere]
                 example_initial)
   \<and> canceled (run example_env [touch_start ''12'', touch_move ''12'' (110, 100), touch_end_nowhere]
                 example_initial) = []
   \<and> canceled (run example_env [touch_start ''12'', touch_move ''12'' (110, 100), touch_end_outside]
                 example_initial) = [(movedOutOfBoard, Undefined)]
   \<and> moveInputState (run example_env [mouse_down ''12'', mouse_move ''12'' (110, 100)]
                       example_initial) = dragTo
   \<and> squares (run example_env [mouse_down ''12'', mouse_move ''12'' (110, 100), mouse_up_foreign ''28'']
                 example_initial) ''12'' = Null
   \<and> squares (run example_env [mouse_down ''12'', mouse_move ''12'' (110, 100), mouse_up_foreign ''28'']
                 example_initial) ''28'' = Str ''wp''
   \<and> canceled (run example_env [mouse_down ''12'', mouse_move ''12'' (110, 100), mouse_up_foreign ''28'']
                 example_initial) = []
   \<and> moveInputState (run example_env [mouse_down ''12'', mouse_up ''12'', mouse_up_foreign ''28'']
                       example_initial) = clickTo"
  by (simp add: two_quick_moves_def example_events mouse_up_foreign_def handler_defs queue_defs
        example_env_def piecesGroup_example_initial example_initial_fields at_rest_def
        drawPieces_loop_lookup index_string_28 example_squares_def)

end
